theory Spec2Isabelle
  imports Main "HOL-Library.Word" "HOL-Library.Multiset"
begin

unbundle bit_operations_syntax

section \<open>Vulkan memory pools and allocations (Strawberry/Vulkan/Memory/Allocator)\<close>

text \<open>
  A shallow embedding of \<^verbatim>\<open>Allocator.hpp\<close> and \<^verbatim>\<open>Allocator.cpp\<close>.
  Objects that are reached through references (devices, physical devices, allocators,
  memory pools) live in a store and are named by their address. Every way the C++
  terminates the process is a value of type \<open>fault\<close>; a function that can do so
  returns \<open>fault + 'a\<close>.
\<close>

subsection \<open>Basic types\<close>

type_synonym addr = nat
type_synonym VkResult = int
type_synonym VkDeviceMemory = nat
type_synonym VkDevice = nat
type_synonym VkMemoryPropertyFlags = "32 word"
type_synonym DynamicByteBuffer = "8 word list"

definition VK_SUCCESS :: VkResult where
  "VK_SUCCESS = 0"

definition VK_ERROR_OUT_OF_HOST_MEMORY :: VkResult where
  "VK_ERROR_OUT_OF_HOST_MEMORY = - 1"

definition VK_ERROR_OUT_OF_DEVICE_MEMORY :: VkResult where
  "VK_ERROR_OUT_OF_DEVICE_MEMORY = - 2"

definition VK_NULL_HANDLE :: nat where
  "VK_NULL_HANDLE = 0"

definition VK_WHOLE_SIZE :: nat where
  "VK_WHOLE_SIZE = 2 ^ 64 - 1"

definition VK_MEMORY_PROPERTY_HOST_VISIBLE_BIT :: VkMemoryPropertyFlags where
  "VK_MEMORY_PROPERTY_HOST_VISIBLE_BIT = 0x00000002"

definition VK_MEMORY_PROPERTY_HOST_COHERENT_BIT :: VkMemoryPropertyFlags where
  "VK_MEMORY_PROPERTY_HOST_COHERENT_BIT = 0x00000004"

text \<open>
  The three ways the code stops the process: a failed \<^verbatim>\<open>Core::Assert\<close>,
  \<^verbatim>\<open>Core::AssertEQ\<close> or \<^verbatim>\<open>Core::AssertImplication\<close>; reaching
  \<^verbatim>\<open>Core::Unreachable()\<close>; dereferencing a \<^verbatim>\<open>Core::ReflexivePointer\<close>
  whose referent is gone. The fourth value is not a branch of the code: it marks a
  client program that names an \<^verbatim>\<open>Allocation\<close> object outside its lifetime, which C++
  leaves undefined.
\<close>

datatype fault = AssertionFailure | Unreachable | StaleReference | OutOfLifetime

text \<open>
  Modelled from the spec: \<^verbatim>\<open>Core::Assert\<close>, \<^verbatim>\<open>Core::AssertEQ\<close> and
  \<^verbatim>\<open>Core::AssertImplication\<close> belong to the Core library, which is not among the
  sources. An assertion that fails terminates the process (the spec's fail-fast
  programmer-error class); \<^verbatim>\<open>AssertImplication(a, b)\<close> asserts that \<open>a\<close> implies \<open>b\<close>.
\<close>

definition Assert :: "bool \<Rightarrow> fault + unit" where
  "Assert c = (if c then Inr () else Inl AssertionFailure)"

definition AssertEQ :: "'a \<Rightarrow> 'a \<Rightarrow> fault + unit" where
  "AssertEQ a b = Assert (a = b)"

definition AssertImplication :: "bool \<Rightarrow> bool \<Rightarrow> fault + unit" where
  "AssertImplication a b = Assert (\<not> a \<or> b)"

text \<open>
  Modelled from the spec: \<^verbatim>\<open>Core::ReflexivePointer<T>\<close> is not among the sources. It is
  the spec's weak, liveness-checked reference: null or the address of an object; it
  converts to true when it is non-null and its referent is still alive; dereferencing
  it otherwise terminates the process; moving it leaves the source null.
\<close>

type_synonym ReflexivePointer = "addr option"

definition ReflexivePointer_bool :: "addr set \<Rightarrow> ReflexivePointer \<Rightarrow> bool" where
  "ReflexivePointer_bool alive p = (case p of None \<Rightarrow> False | Some a \<Rightarrow> a \<in> alive)"

definition ReflexivePointer_deref :: "(addr \<rightharpoonup> 'a) \<Rightarrow> ReflexivePointer \<Rightarrow> fault + 'a" where
  "ReflexivePointer_deref store p =
     (case p of
        None \<Rightarrow> Inl StaleReference
      | Some a \<Rightarrow> (case store a of None \<Rightarrow> Inl StaleReference | Some x \<Rightarrow> Inr x))"

definition ReflexivePointer_move :: "ReflexivePointer \<Rightarrow> ReflexivePointer \<times> ReflexivePointer" where
  \<comment> \<open>\<open>std::move\<close> into a new pointer: (the new pointer, the moved-from source)\<close>
  "ReflexivePointer_move p = (p, None)"

subsection \<open>AllocationError\<close>

text \<open>
  The three structs declared inside \<^verbatim>\<open>class AllocationError\<close>: the types at which the
  templates \<^verbatim>\<open>AllocationError(T)\<close>, \<^verbatim>\<open>IsType<T>\<close> and \<^verbatim>\<open>GetInfo<T>\<close> can be asked for.
\<close>

datatype Alternative = OutOfMemory | MemoryTypeUnavailable | RequestTooLarge

text \<open>
  \<^verbatim>\<open>using Info = Core::Variant<OutOfMemory, MemoryTypeUnavailable>\<close>: the values the
  member \<^verbatim>\<open>mInfo\<close> can hold.
\<close>

datatype Info = Info_OutOfMemory | Info_MemoryTypeUnavailable

record AllocationError =
  mInfo :: Info

text \<open>
  Initialising the variant from a value of type \<open>T\<close> is possible when \<open>T\<close> is one of its
  alternatives; for any other type the initialisation \<^verbatim>\<open>mInfo(info)\<close> is ill-formed and
  the constructor cannot be instantiated (\<open>None\<close>).
\<close>

fun Variant_ctor :: "Alternative \<Rightarrow> Info option" where
  "Variant_ctor OutOfMemory = Some Info_OutOfMemory"
| "Variant_ctor MemoryTypeUnavailable = Some Info_MemoryTypeUnavailable"
| "Variant_ctor RequestTooLarge = None"

definition AllocationError_ctor :: "Alternative \<Rightarrow> AllocationError option" where
  "AllocationError_ctor info =
     (case Variant_ctor info of None \<Rightarrow> None | Some i \<Rightarrow> Some \<lparr>mInfo = i\<rparr>)"

definition IsType :: "Alternative \<Rightarrow> AllocationError \<Rightarrow> bool" where
  "IsType T e = (Variant_ctor T = Some (mInfo e))"

definition GetInfo :: "Alternative \<Rightarrow> AllocationError \<Rightarrow> fault + Alternative" where
  "GetInfo T e = (case Assert (IsType T e) of Inl f \<Rightarrow> Inl f | Inr _ \<Rightarrow> Inr T)"

subsection \<open>AllocationRequest\<close>

record AllocationRequest =
  device :: ReflexivePointer
  size' :: nat
  alignment :: nat
  memoryTypeMask :: "32 word"

text \<open>
  \<^verbatim>\<open>AllocationRequest(const Device& device, size_t size, size_t alignment)\<close>: the mask is
  not in the initialiser list and keeps its default member initialiser.
\<close>

definition AllocationRequest_ctor :: "addr \<Rightarrow> nat \<Rightarrow> nat \<Rightarrow> AllocationRequest" where
  "AllocationRequest_ctor dev sz al =
     \<lparr>device = Some dev, size' = sz, alignment = al, memoryTypeMask = 0xFFFFFFFF\<rparr>"

text \<open>
  \<^verbatim>\<open>AllocationRequest(VkMemoryRequirements& requirements)\<close>: size, alignment and
  \<^verbatim>\<open>memoryTypeBits\<close> of the requirements; the device member is not initialised and is
  the null pointer.
\<close>

record VkMemoryRequirements =
  req_size :: nat
  req_alignment :: nat
  memoryTypeBits :: "32 word"

definition AllocationRequest_of_requirements :: "VkMemoryRequirements \<Rightarrow> AllocationRequest" where
  "AllocationRequest_of_requirements requirements =
     \<lparr>device = None, size' = req_size requirements, alignment = req_alignment requirements,
      memoryTypeMask = memoryTypeBits requirements\<rparr>"

subsection \<open>The native device and the store\<close>

text \<open>
  The calls into the Vulkan driver, with the arguments the code passes: the device (by
  the address of the \<^verbatim>\<open>Device\<close> object), then
  \<^item> \<open>vkAllocateMemory\<close>: \<^verbatim>\<open>allocationSize\<close>, \<^verbatim>\<open>memoryTypeIndex\<close>;
  \<^item> \<open>vkMapMemory\<close>: memory, offset, size, flags;
  \<^item> \<open>vkFlushMappedMemoryRanges\<close>: memory, offset and size of the one range;
  \<^item> \<open>vkFreeMemory\<close>: memory.
\<close>

datatype native_call =
    vkAllocateMemory addr nat "32 word"
  | vkMapMemory addr VkDeviceMemory nat nat nat
  | vkFlushMappedMemoryRanges addr VkDeviceMemory nat nat
  | vkFreeMemory addr VkDeviceMemory

text \<open>
  The driver is a parameter: from the calls made so far and the call made now it gives
  the \<^verbatim>\<open>VkResult\<close> and the value written through the out-pointer (a memory handle for
  \<open>vkAllocateMemory\<close>, a host address for \<open>vkMapMemory\<close>).
\<close>

type_synonym driver = "native_call list \<Rightarrow> native_call \<Rightarrow> VkResult \<times> nat"

text \<open>
  \<^verbatim>\<open>PhysicalDevice\<close> is an external collaborator; the code reads
  \<^verbatim>\<open>GetMemoryProperties().memoryTypes[i].propertyFlags\<close> only.
\<close>

record PhysicalDevice =
  memoryTypes :: "32 word \<Rightarrow> VkMemoryPropertyFlags"

record MemoryPool =
  mDevice :: ReflexivePointer
  mPhysicalDevice :: ReflexivePointer
  mMemoryTypeIndex :: "32 word"
  mMemory :: VkDeviceMemory
  mSize :: nat
  mMappedAddress :: "nat option"

record Allocation =
  mDevice :: VkDevice
  mAllocator :: ReflexivePointer
  mRawAllocation :: ReflexivePointer
  mOffset :: nat
  mSize :: nat

text \<open>
  The world the methods run in: the live \<^verbatim>\<open>Device\<close> and \<^verbatim>\<open>Allocator\<close> objects, the
  live \<^verbatim>\<open>PhysicalDevice\<close> and \<^verbatim>\<open>MemoryPool\<close> objects with their state, the host address
  space, the native calls made so far, the allocations handed to
  \<^verbatim>\<open>Allocator::Free\<close> so far, and what the flushes made so far have published to
  the device: for each flush, the host memory as it stood at the call.
\<close>

record world =
  devices :: "addr set"
  physicalDevices :: "addr \<rightharpoonup> PhysicalDevice"
  allocators :: "addr set"
  pools :: "addr \<rightharpoonup> MemoryPool"
  memory :: "nat \<Rightarrow> 8 word"
  calls :: "native_call list"
  released :: "Allocation list"
  flushed :: "(nat \<Rightarrow> 8 word) list"

definition native :: "driver \<Rightarrow> native_call \<Rightarrow> world \<Rightarrow> (VkResult \<times> nat) \<times> world" where
  \<comment> \<open>make one native call: its result, and the world with the call recorded\<close>
  "native drv c w = (drv (calls w) c, w\<lparr>calls := calls w @ [c]\<rparr>)"

definition deref_Device :: "world \<Rightarrow> ReflexivePointer \<Rightarrow> fault + addr" where
  "deref_Device w p = ReflexivePointer_deref (\<lambda>a. if a \<in> devices w then Some a else None) p"

subsection \<open>MemoryPool\<close>

definition MemoryPool_default :: MemoryPool where
  "MemoryPool_default =
     \<lparr>MemoryPool.mDevice = None, mPhysicalDevice = None, mMemoryTypeIndex = - 1,
      mMemory = VK_NULL_HANDLE, mSize = 0, mMappedAddress = None\<rparr>"

definition MemoryPool_ctor ::
  "addr \<Rightarrow> addr \<Rightarrow> 32 word \<Rightarrow> VkDeviceMemory \<Rightarrow> nat \<Rightarrow> MemoryPool" where
  "MemoryPool_ctor dev physicalDevice memoryTypeIndex mem sz =
     \<lparr>MemoryPool.mDevice = Some dev, mPhysicalDevice = Some physicalDevice,
      mMemoryTypeIndex = memoryTypeIndex, mMemory = mem, mSize = sz, mMappedAddress = None\<rparr>"

text \<open>
  \<^verbatim>\<open>MemoryPool::Allocate\<close>: the switch on the result of \<open>vkAllocateMemory\<close>. The two
  out-of-memory codes return the error, success leaves the switch and returns the pool,
  the default case is \<^verbatim>\<open>Core::Unreachable()\<close>.
\<close>

definition MemoryPool_Allocate ::
  "driver \<Rightarrow> addr \<Rightarrow> addr \<Rightarrow> 32 word \<Rightarrow> nat \<Rightarrow> world
     \<Rightarrow> fault + ((AllocationError + MemoryPool) \<times> world)" where
  "MemoryPool_Allocate drv dev physicalDevice memoryTypeIndex sz w =
     (case native drv (vkAllocateMemory dev sz memoryTypeIndex) w of
        ((allocationResult, deviceMemory), w') \<Rightarrow>
          if allocationResult = VK_ERROR_OUT_OF_HOST_MEMORY
             \<or> allocationResult = VK_ERROR_OUT_OF_DEVICE_MEMORY
          then Inr (Inl \<lparr>mInfo = Info_OutOfMemory\<rparr>, w')
          else if allocationResult = VK_SUCCESS
          then Inr (Inr (MemoryPool_ctor dev physicalDevice memoryTypeIndex deviceMemory sz), w')
          else Inl Unreachable)"

definition Size :: "MemoryPool \<Rightarrow> nat" where
  "Size this = MemoryPool.mSize this"

definition MemoryTypeIndex :: "MemoryPool \<Rightarrow> 32 word" where
  "MemoryTypeIndex this = mMemoryTypeIndex this"

definition Memory :: "MemoryPool \<Rightarrow> VkDeviceMemory" where
  "Memory this = mMemory this"

definition Allocation_ctor :: "addr \<Rightarrow> addr \<Rightarrow> nat \<Rightarrow> nat \<Rightarrow> Allocation" where
  \<comment> \<open>the four-argument constructor of \<^verbatim>\<open>Allocator.cpp\<close>; \<^verbatim>\<open>mDevice\<close> keeps its default\<close>
  "Allocation_ctor allocator allocation offset sz =
     \<lparr>Allocation.mDevice = VK_NULL_HANDLE, mAllocator = Some allocator,
      mRawAllocation = Some allocation, mOffset = offset, mSize = sz\<rparr>"

text \<open>
  \<^verbatim>\<open>MemoryPool::AllocateView\<close>: \<^verbatim>\<open>return {allocator, *this, offset, size};\<close> where \<open>this\<close>
  is the address of the pool.
\<close>

definition MemoryPool_AllocateView :: "addr \<Rightarrow> addr \<Rightarrow> nat \<Rightarrow> nat \<Rightarrow> Allocation" where
  "MemoryPool_AllocateView this allocator offset sz = Allocation_ctor allocator this offset sz"

definition MemoryPool_Properties :: "MemoryPool \<Rightarrow> world \<Rightarrow> fault + VkMemoryPropertyFlags" where
  "MemoryPool_Properties this w =
     (case ReflexivePointer_deref (physicalDevices w) (mPhysicalDevice this) of
        Inl f \<Rightarrow> Inl f
      | Inr physicalDevice \<Rightarrow> Inr (memoryTypes physicalDevice (mMemoryTypeIndex this)))"

text \<open>
  \<^verbatim>\<open>MemoryPool::GetMappedAddress\<close>: the method is \<open>const\<close> and the cache \<open>mutable\<close>, so
  the pool is returned with the cache filled.
\<close>

definition MemoryPool_GetMappedAddress ::
  "driver \<Rightarrow> MemoryPool \<Rightarrow> world \<Rightarrow> fault + (nat \<times> MemoryPool \<times> world)" where
  "MemoryPool_GetMappedAddress drv this w =
     (case mMappedAddress this of
        Some a \<Rightarrow> Inr (a, this, w)
      | None \<Rightarrow>
          (case MemoryPool_Properties this w of
             Inl f \<Rightarrow> Inl f
           | Inr props \<Rightarrow>
               (case Assert (props AND VK_MEMORY_PROPERTY_HOST_VISIBLE_BIT \<noteq> 0) of
                  Inl f \<Rightarrow> Inl f
                | Inr _ \<Rightarrow>
                    (case deref_Device w (MemoryPool.mDevice this) of
                       Inl f \<Rightarrow> Inl f
                     | Inr dev \<Rightarrow>
                         (case native drv (vkMapMemory dev (mMemory this) 0 VK_WHOLE_SIZE 0) w of
                            ((r, mappedAddress), w') \<Rightarrow>
                              (case AssertEQ r VK_SUCCESS of
                                 Inl f \<Rightarrow> Inl f
                               | Inr _ \<Rightarrow>
                                   Inr (mappedAddress,
                                        this\<lparr>mMappedAddress := Some mappedAddress\<rparr>, w')))))))"

text \<open>
  \<^verbatim>\<open>MemoryPool::Flush\<close>: one \<open>vkFlushMappedMemoryRanges\<close> call for the whole range of
  the pool's memory, asserted to succeed. A flush publishes the host's writes to the
  device, so a successful flush is recorded with the host memory as it stands at the
  call.
\<close>

definition MemoryPool_Flush :: "driver \<Rightarrow> MemoryPool \<Rightarrow> world \<Rightarrow> fault + world" where
  "MemoryPool_Flush drv this w =
     (case deref_Device w (MemoryPool.mDevice this) of
        Inl f \<Rightarrow> Inl f
      | Inr dev \<Rightarrow>
          (case native drv (vkFlushMappedMemoryRanges dev (mMemory this) 0 VK_WHOLE_SIZE) w of
             ((r, _), w') \<Rightarrow>
               (case AssertEQ r VK_SUCCESS of
                  Inl f \<Rightarrow> Inl f
                | Inr _ \<Rightarrow> Inr (w'\<lparr>flushed := flushed w' @ [memory w']\<rparr>))))"

text \<open>
  Host addresses are 64 bits wide: adding a \<^verbatim>\<open>size_t\<close> to a \<^verbatim>\<open>uint8_t*\<close> wraps around
  at \<open>2 ^ 64\<close>.
\<close>

definition ptr_add :: "nat \<Rightarrow> nat \<Rightarrow> nat" where
  "ptr_add p n = (p + n) mod 2 ^ 64"

text \<open>
  \<^verbatim>\<open>std::memcpy(dst, src, n)\<close>: byte \<open>i\<close> of the source goes to the address \<open>dst + i\<close>, for
  \<open>i = 0, ..., n - 1\<close> in this order.
\<close>

definition memcpy :: "nat \<Rightarrow> 8 word list \<Rightarrow> nat \<Rightarrow> world \<Rightarrow> world" where
  "memcpy dst src n w =
     w\<lparr>memory := fold (\<lambda>i m. m(ptr_add dst i := src ! i)) [0..<n] (memory w)\<rparr>"

definition MemoryPool_Overwrite ::
  "driver \<Rightarrow> MemoryPool \<Rightarrow> DynamicByteBuffer \<Rightarrow> world \<Rightarrow> fault + (MemoryPool \<times> world)" where
  "MemoryPool_Overwrite drv this bytes w =
     (case Assert (length bytes \<le> Size this) of
        Inl f \<Rightarrow> Inl f
      | Inr _ \<Rightarrow>
          (case MemoryPool_GetMappedAddress drv this w of
             Inl f \<Rightarrow> Inl f
           | Inr (a, this1, w1) \<Rightarrow>
               (case MemoryPool_Properties this1 (memcpy a bytes (length bytes) w1) of
                  Inl f \<Rightarrow> Inl f
                | Inr props \<Rightarrow>
                    if props AND VK_MEMORY_PROPERTY_HOST_COHERENT_BIT = 0
                    then (case MemoryPool_Flush drv this1 (memcpy a bytes (length bytes) w1) of
                            Inl f \<Rightarrow> Inl f
                          | Inr w3 \<Rightarrow> Inr (this1, w3))
                    else Inr (this1, memcpy a bytes (length bytes) w1))))"

subsection \<open>Allocation\<close>

definition Allocation_default :: Allocation where
  "Allocation_default =
     \<lparr>Allocation.mDevice = VK_NULL_HANDLE, mAllocator = None, mRawAllocation = None,
      mOffset = 0, mSize = 0\<rparr>"

text \<open>
  \<^verbatim>\<open>Allocation(Allocation&& other)\<close>: the two pointers are moved, offset and size are
  copied (the source keeps them), \<^verbatim>\<open>mDevice\<close> is not in the initialiser list. The
  result is (the new object, the moved-from source).
\<close>

definition Allocation_move :: "Allocation \<Rightarrow> Allocation \<times> Allocation" where
  "Allocation_move other =
     (case ReflexivePointer_move (mAllocator other) of
        (allocator, other_allocator) \<Rightarrow>
          (case ReflexivePointer_move (mRawAllocation other) of
             (rawAllocation, other_rawAllocation) \<Rightarrow>
               (\<lparr>Allocation.mDevice = VK_NULL_HANDLE, mAllocator = allocator,
                 mRawAllocation = rawAllocation, mOffset = mOffset other,
                 mSize = Allocation.mSize other\<rparr>,
                other\<lparr>mAllocator := other_allocator, mRawAllocation := other_rawAllocation\<rparr>)))"

definition has_Allocator :: "world \<Rightarrow> Allocation \<Rightarrow> bool" where
  \<comment> \<open>the conversion of \<^verbatim>\<open>mAllocator\<close> to \<open>bool\<close>\<close>
  "has_Allocator w this = ReflexivePointer_bool (allocators w) (mAllocator this)"

definition has_RawAllocation :: "world \<Rightarrow> Allocation \<Rightarrow> bool" where
  \<comment> \<open>the conversion of \<^verbatim>\<open>mRawAllocation\<close> to \<open>bool\<close>\<close>
  "has_RawAllocation w this = ReflexivePointer_bool (dom (pools w)) (mRawAllocation this)"

text \<open>
  \<^verbatim>\<open>Allocation::operator bool\<close>, as written in \<^verbatim>\<open>Allocator.hpp\<close>:
  \<^verbatim>\<open>Core::AssertImplication(!mAllocator, mRawAllocation); return mAllocator;\<close>
\<close>

definition Allocation_operator_bool :: "world \<Rightarrow> Allocation \<Rightarrow> fault + bool" where
  "Allocation_operator_bool w this =
     (case AssertImplication (\<not> has_Allocator w this) (has_RawAllocation w this) of
        Inl f \<Rightarrow> Inl f
      | Inr _ \<Rightarrow> Inr (has_Allocator w this))"

text \<open>
  \<^verbatim>\<open>Allocator::Free\<close> is pure virtual. The call is recorded with the allocation it is
  given; what an implementation does with it is not part of the sources.
\<close>

definition Allocator_Free :: "addr \<Rightarrow> Allocation \<Rightarrow> world \<Rightarrow> world" where
  "Allocator_Free allocator address w = w\<lparr>released := released w @ [address]\<rparr>"

text \<open>
  \<^verbatim>\<open>Allocation::~Allocation\<close>:
  \<^verbatim>\<open>Core::AssertImplication(!mAllocator, !mRawAllocation); if (mAllocator) mAllocator->Free(std::move(*this));\<close>
\<close>

definition Allocation_dtor :: "Allocation \<Rightarrow> world \<Rightarrow> fault + world" where
  "Allocation_dtor this w =
     (case AssertImplication (\<not> has_Allocator w this) (\<not> has_RawAllocation w this) of
        Inl f \<Rightarrow> Inl f
      | Inr _ \<Rightarrow>
          if has_Allocator w this
          then (case ReflexivePointer_deref (\<lambda>a. if a \<in> allocators w then Some a else None)
                       (mAllocator this) of
                  Inl f \<Rightarrow> Inl f
                | Inr allocator \<Rightarrow> Inr (Allocator_Free allocator this w))
          else Inr w)"

definition Offset :: "Allocation \<Rightarrow> nat" where
  "Offset this = mOffset this"

definition Allocation_Size :: "Allocation \<Rightarrow> nat" where
  "Allocation_Size this = Allocation.mSize this"

definition deref_MemoryPool :: "world \<Rightarrow> ReflexivePointer \<Rightarrow> fault + (addr \<times> MemoryPool)" where
  \<comment> \<open>the pool a pointer refers to, with its address (the pool is updated in place)\<close>
  "deref_MemoryPool w p = ReflexivePointer_deref (\<lambda>a. map_option (Pair a) (pools w a)) p"

text \<open>
  \<^verbatim>\<open>Allocation::GetMappedAddress\<close>: \<^verbatim>\<open>mRawAllocation->GetMappedAddress() + mOffset\<close>, a
  pointer addition. The pool is an object of the store, and its cache is filled there.
\<close>

definition Allocation_GetMappedAddress ::
  "driver \<Rightarrow> Allocation \<Rightarrow> world \<Rightarrow> fault + (nat \<times> world)" where
  "Allocation_GetMappedAddress drv this w =
     (case deref_MemoryPool w (mRawAllocation this) of
        Inl f \<Rightarrow> Inl f
      | Inr (p, pool) \<Rightarrow>
          (case MemoryPool_GetMappedAddress drv pool w of
             Inl f \<Rightarrow> Inl f
           | Inr (a, pool', w') \<Rightarrow>
               Inr (ptr_add a (mOffset this), w'\<lparr>pools := (pools w')(p \<mapsto> pool')\<rparr>)))"

text \<open>
  \<^verbatim>\<open>Allocation::Overwrite\<close>:
  \<^verbatim>\<open>Core::Assert(bytes.Size() <= Size()); std::memcpy(GetMappedAddress(), bytes.Data(), bytes.Size());\<close>
\<close>

definition Allocation_Overwrite ::
  "driver \<Rightarrow> Allocation \<Rightarrow> DynamicByteBuffer \<Rightarrow> world \<Rightarrow> fault + world" where
  "Allocation_Overwrite drv this bytes w =
     (case Assert (length bytes \<le> Allocation_Size this) of
        Inl f \<Rightarrow> Inl f
      | Inr _ \<Rightarrow>
          (case Allocation_GetMappedAddress drv this w of
             Inl f \<Rightarrow> Inl f
           | Inr (a, w1) \<Rightarrow> Inr (memcpy a bytes (length bytes) w1)))"

definition is_flush :: "native_call \<Rightarrow> bool" where
  "is_flush c = (case c of vkFlushMappedMemoryRanges _ _ _ _ \<Rightarrow> True | _ \<Rightarrow> False)"

definition is_map :: "native_call \<Rightarrow> bool" where
  "is_map c = (case c of vkMapMemory _ _ _ _ _ \<Rightarrow> True | _ \<Rightarrow> False)"

subsection \<open>Client programs over Allocation objects\<close>

text \<open>
  \<^verbatim>\<open>Allocation\<close> is move-only, so what a client can do with the objects it holds is:
  default-construct one, move-construct a new one from an old one, move-assign one to
  another, and end the lifetime of one (which runs the destructor). The objects are
  numbered in the order of their construction; \<open>None\<close> is an object whose lifetime has
  ended.
\<close>

datatype client_op =
    DefaultConstruct
  | MoveConstruct nat
  | MoveAssign nat nat
  | Destroy nat

type_synonym objects = "Allocation option list"

definition object :: "objects \<Rightarrow> nat \<Rightarrow> fault + Allocation" where
  "object objs i =
     (if i < length objs
      then (case objs ! i of None \<Rightarrow> Inl OutOfLifetime | Some a \<Rightarrow> Inr a)
      else Inl OutOfLifetime)"

text \<open>
  \<^verbatim>\<open>Allocation::operator=(Allocation&& other)\<close> for \<^verbatim>\<open>this != &other\<close>:
  \<^verbatim>\<open>std::destroy_at(this); std::construct_at(this, std::move(other));\<close>
  The result is (the new \<open>*this\<close>, the moved-from \<open>other\<close>, the world).
\<close>

definition Allocation_move_assign ::
  "Allocation \<Rightarrow> Allocation \<Rightarrow> world \<Rightarrow> fault + (Allocation \<times> Allocation \<times> world)" where
  "Allocation_move_assign this other w =
     (case Allocation_dtor this w of
        Inl f \<Rightarrow> Inl f
      | Inr w' \<Rightarrow> (case Allocation_move other of (this', other') \<Rightarrow> Inr (this', other', w')))"

fun step :: "client_op \<Rightarrow> world \<times> objects \<Rightarrow> fault + (world \<times> objects)" where
  "step DefaultConstruct (w, objs) = Inr (w, objs @ [Some Allocation_default])"
| "step (MoveConstruct src) (w, objs) =
     (case object objs src of
        Inl f \<Rightarrow> Inl f
      | Inr other \<Rightarrow>
          (case Allocation_move other of
             (new, other') \<Rightarrow> Inr (w, objs[src := Some other'] @ [Some new])))"
| "step (MoveAssign dst src) (w, objs) =
     (case object objs dst of
        Inl f \<Rightarrow> Inl f
      | Inr this \<Rightarrow>
          (case object objs src of
             Inl f \<Rightarrow> Inl f
           | Inr other \<Rightarrow>
               if dst = src then Inr (w, objs)
               else (case Allocation_move_assign this other w of
                       Inl f \<Rightarrow> Inl f
                     | Inr (this', other', w') \<Rightarrow>
                         Inr (w', objs[dst := Some this', src := Some other']))))"
| "step (Destroy i) (w, objs) =
     (case object objs i of
        Inl f \<Rightarrow> Inl f
      | Inr this \<Rightarrow>
          (case Allocation_dtor this w of
             Inl f \<Rightarrow> Inl f
           | Inr w' \<Rightarrow> Inr (w', objs[i := None])))"

fun run :: "client_op list \<Rightarrow> world \<times> objects \<Rightarrow> fault + (world \<times> objects)" where
  "run [] s = Inr s"
| "run (c # cs) s = (case step c s of Inl f \<Rightarrow> Inl f | Inr s' \<Rightarrow> run cs s')"

text \<open>
  The claim an allocation stands for: its allocator, its pool and its byte range. The
  claims held are those of the objects within their lifetime whose allocator reference is
  live: the ones whose destructor will call \<^verbatim>\<open>Allocator::Free\<close>.
\<close>

type_synonym claim = "ReflexivePointer \<times> ReflexivePointer \<times> nat \<times> nat"

definition claim_of :: "Allocation \<Rightarrow> claim" where
  "claim_of a = (mAllocator a, mRawAllocation a, mOffset a, Allocation.mSize a)"

definition holding :: "world \<Rightarrow> Allocation option \<Rightarrow> claim multiset" where
  "holding w obj =
     (case obj of
        None \<Rightarrow> {#}
      | Some a \<Rightarrow> if has_Allocator w a then {#claim_of a#} else {#})"

definition held :: "world \<Rightarrow> objects \<Rightarrow> claim multiset" where
  "held w objs = sum_list (map (holding w) objs)"

definition released_claims :: "world \<Rightarrow> claim multiset" where
  "released_claims w = mset (map claim_of (released w))"

text \<open>
  The two back-references of an allocation are both present or both absent.
\<close>

definition both_or_neither :: "world \<Rightarrow> Allocation \<Rightarrow> bool" where
  "both_or_neither w a = (has_Allocator w a = has_RawAllocation w a)"

text \<open>
  The allocations that pass the destructor's assertion
  \<^verbatim>\<open>AssertImplication(!mAllocator, !mRawAllocation)\<close>: those that do not have a pool without
  an allocator. The objects of a client are well formed when every one within its
  lifetime is such.
\<close>

definition destructible :: "world \<Rightarrow> Allocation \<Rightarrow> bool" where
  "destructible w a = (has_RawAllocation w a \<longrightarrow> has_Allocator w a)"

definition well_formed :: "world \<Rightarrow> objects \<Rightarrow> bool" where
  "well_formed w objs = list_all (\<lambda>obj. case obj of None \<Rightarrow> True | Some a \<Rightarrow> destructible w a) objs"

text \<open>
  The world after the destructor of an allocation that passes the assertion: the
  callback is recorded when the allocator reference is live.
\<close>

definition after_dtor :: "Allocation \<Rightarrow> world \<Rightarrow> world" where
  "after_dtor this w = (if has_Allocator w this then w\<lparr>released := released w @ [this]\<rparr> else w)"

text \<open>
  What every step of a client conserves: the objects stay well formed, the claims
  released so far together with the claims still held do not change, and the record of
  callbacks only grows.
\<close>

definition conserved :: "world \<times> objects \<Rightarrow> world \<times> objects \<Rightarrow> bool" where
  "conserved s s' =
     (well_formed (fst s') (snd s')
      \<and> released_claims (fst s') + held (fst s') (snd s')
          = released_claims (fst s) + held (fst s) (snd s)
      \<and> (\<exists>rs. released (fst s') = released (fst s) @ rs))"

text \<open>
  A sequence of moves applied to one allocation: each move takes the latest object \<open>k\<close>
  into a new object \<open>k + 1\<close>, either by the move constructor
  (\<^verbatim>\<open>Allocation next(std::move(last));\<close>) or by move assignment to a default-constructed
  object (\<^verbatim>\<open>Allocation next; next = std::move(last);\<close>). Then: destroying the first \<open>n\<close>
  objects, in the order of their construction.
\<close>

datatype move_kind = MoveConstructor | MoveAssignment

fun move_ops :: "nat \<Rightarrow> move_kind \<Rightarrow> client_op list" where
  "move_ops k MoveConstructor = [MoveConstruct k]"
| "move_ops k MoveAssignment = [DefaultConstruct, MoveAssign (Suc k) k]"

fun moves_from :: "nat \<Rightarrow> move_kind list \<Rightarrow> client_op list" where
  "moves_from k [] = []"
| "moves_from k (m # ms) = move_ops k m @ moves_from (Suc k) ms"

definition moves :: "move_kind list \<Rightarrow> client_op list" where
  "moves kinds = moves_from 0 kinds"

definition destroys :: "nat \<Rightarrow> client_op list" where
  "destroys n = map Destroy [0..<n]"

definition all_destroyed :: "objects \<Rightarrow> bool" where
  "all_destroyed objs = list_all (\<lambda>obj. obj = None) objs"

definition moved_from :: "Allocation option \<Rightarrow> bool" where
  "moved_from obj =
     (case obj of None \<Rightarrow> False | Some x \<Rightarrow> mAllocator x = None \<and> mRawAllocation x = None)"

subsection \<open>A concrete device, pool and allocation\<close>

text \<open>
  The end-to-end scenario: a device at address 1; a physical device at address 2 whose
  memory type 0 is host-visible and not host-coherent, whose memory type 1 is
  host-visible and host-coherent and whose other memory types are device-local only; an
  allocator at address 3; 256-byte pools of memory type 0 (at address 4) and of memory
  type 1 (at address 5), and a third of memory type 2; a driver that always succeeds and
  maps at host address 4096, and drivers that always answer a given result; the
  allocations of 64 bytes at offset 0, of 16 bytes at offset 16 and of 16 bytes at the
  largest offset \<open>2 ^ 64 - 1\<close> of the pool at address 4.
\<close>

definition physicalDevice0 :: PhysicalDevice where
  "physicalDevice0 = \<lparr>memoryTypes = (\<lambda>i. if i = 0 then 0x2 else if i = 1 then 0x6 else 0x1)\<rparr>"

definition pool0 :: MemoryPool where
  "pool0 = MemoryPool_ctor 1 2 0 7 256"

definition pool1 :: MemoryPool where
  "pool1 = MemoryPool_ctor 1 2 1 8 256"

definition world0 :: world where
  "world0 =
     \<lparr>devices = {1}, physicalDevices = [2 \<mapsto> physicalDevice0], allocators = {3},
      pools = [4 \<mapsto> pool0, 5 \<mapsto> pool1], memory = (\<lambda>_. 0), calls = [], released = [],
      flushed = []\<rparr>"

definition driver0 :: driver where
  "driver0 history c = (VK_SUCCESS, 4096)"

definition pool2 :: MemoryPool where
  "pool2 = MemoryPool_ctor 1 2 2 9 256"

definition driver_failing :: "VkResult \<Rightarrow> driver" where
  "driver_failing r history c = (r, 0)"

definition allocation1 :: Allocation where
  "allocation1 = MemoryPool_AllocateView 4 3 16 16"

definition allocation2 :: Allocation where
  "allocation2 = MemoryPool_AllocateView 4 3 (2 ^ 64 - 1) 16"

definition allocation0 :: Allocation where
  "allocation0 = MemoryPool_AllocateView 4 3 0 64"

text \<open>
  A client that moves the allocation into a second object, default-constructs a third,
  move-assigns the second to the third and destroys all three.
\<close>

definition ops0 :: "client_op list" where
  "ops0 = [MoveConstruct 0, DefaultConstruct, MoveAssign 2 1, Destroy 2, Destroy 0, Destroy 1]"

section \<open>Properties\<close>

subsection \<open>AllocationRequest\<close>

text \<open>
  Claim C10. An \<^verbatim>\<open>AllocationRequest\<close> constructed from a device, a size and an alignment
  only has the memory-type mask \<open>0xFFFFFFFF\<close>: all 32 bits are set, so no memory type is
  excluded. The size and alignment are the ones given.
\<close>

theorem AllocationRequest_default_mask:
  "memoryTypeMask (AllocationRequest_ctor dev sz al) = 0xFFFFFFFF
   \<and> NOT (memoryTypeMask (AllocationRequest_ctor dev sz al)) = 0
   \<and> size' (AllocationRequest_ctor dev sz al) = sz
   \<and> alignment (AllocationRequest_ctor dev sz al) = al"
  by (simp add: AllocationRequest_ctor_def)

subsection \<open>AllocationError\<close>

text \<open>
  Claim C1. The claim asks for a closed variant of three alternatives in which
  \<^verbatim>\<open>RequestTooLarge\<close> can be constructed and returned. In the code the member variant
  has the two alternatives \<^verbatim>\<open>OutOfMemory\<close> and \<^verbatim>\<open>MemoryTypeUnavailable\<close> only: an
  \<^verbatim>\<open>AllocationError\<close> cannot be constructed from \<^verbatim>\<open>RequestTooLarge\<close>, every value of
  the type holds one of the two others, and none is of type \<^verbatim>\<open>RequestTooLarge\<close>.
\<close>

theorem AllocationError_RequestTooLarge_missing:
  "AllocationError_ctor RequestTooLarge = None
   \<and> AllocationError_ctor OutOfMemory = Some \<lparr>mInfo = Info_OutOfMemory\<rparr>
   \<and> AllocationError_ctor MemoryTypeUnavailable = Some \<lparr>mInfo = Info_MemoryTypeUnavailable\<rparr>
   \<and> (\<forall>e. IsType OutOfMemory e \<or> IsType MemoryTypeUnavailable e)
   \<and> (\<nexists>e. IsType RequestTooLarge e)"
proof -
  have "IsType OutOfMemory e \<or> IsType MemoryTypeUnavailable e" for e
    by (cases "mInfo e") (simp_all add: IsType_def)
  then show ?thesis
    by (simp add: AllocationError_ctor_def IsType_def)
qed

subsection \<open>MemoryPool::Allocate\<close>

text \<open>
  Claim C5. \<^verbatim>\<open>MemoryPool::Allocate\<close> makes one \<open>vkAllocateMemory\<close> call. When the driver
  answers out-of-host-memory or out-of-device-memory it returns the one error
  \<^verbatim>\<open>OutOfMemory\<close>; when the driver answers success it returns a pool of the requested
  size and memory-type index holding the handle the driver gave; on every other answer
  it does not return but stops the process.
\<close>

theorem MemoryPool_Allocate_classifies:
  assumes "drv (calls w) (vkAllocateMemory dev sz memoryTypeIndex) = (r, h)"
  shows "(r = VK_ERROR_OUT_OF_HOST_MEMORY \<or> r = VK_ERROR_OUT_OF_DEVICE_MEMORY \<longrightarrow>
            (\<exists>e w'. MemoryPool_Allocate drv dev physicalDevice memoryTypeIndex sz w = Inr (Inl e, w')
               \<and> IsType OutOfMemory e \<and> AllocationError_ctor OutOfMemory = Some e))
       \<and> (r = VK_SUCCESS \<longrightarrow>
            (\<exists>pool w'. MemoryPool_Allocate drv dev physicalDevice memoryTypeIndex sz w = Inr (Inr pool, w')
               \<and> Size pool = sz \<and> MemoryTypeIndex pool = memoryTypeIndex \<and> Memory pool = h
               \<and> mMappedAddress pool = None))
       \<and> (r \<noteq> VK_ERROR_OUT_OF_HOST_MEMORY \<and> r \<noteq> VK_ERROR_OUT_OF_DEVICE_MEMORY \<and> r \<noteq> VK_SUCCESS \<longrightarrow>
            MemoryPool_Allocate drv dev physicalDevice memoryTypeIndex sz w = Inl Unreachable)
       \<and> (\<forall>res w'. MemoryPool_Allocate drv dev physicalDevice memoryTypeIndex sz w = Inr (res, w') \<longrightarrow>
            calls w' = calls w @ [vkAllocateMemory dev sz memoryTypeIndex])"
  using assms
  by (auto simp: MemoryPool_Allocate_def native_def IsType_def AllocationError_ctor_def
        Size_def MemoryTypeIndex_def Memory_def MemoryPool_ctor_def
        VK_SUCCESS_def VK_ERROR_OUT_OF_HOST_MEMORY_def VK_ERROR_OUT_OF_DEVICE_MEMORY_def)

subsection \<open>MemoryPool::AllocateView\<close>

text \<open>
  Claim C4, as amended. \<^verbatim>\<open>MemoryPool::AllocateView\<close> checks nothing: for every offset and
  size it returns an allocation that refers to the given allocator and to this pool and
  has exactly that offset and that size.
\<close>

theorem MemoryPool_AllocateView_unchecked:
  "mAllocator (MemoryPool_AllocateView this allocator offset sz) = Some allocator
   \<and> mRawAllocation (MemoryPool_AllocateView this allocator offset sz) = Some this
   \<and> Offset (MemoryPool_AllocateView this allocator offset sz) = offset
   \<and> Allocation_Size (MemoryPool_AllocateView this allocator offset sz) = sz"
  by (simp add: MemoryPool_AllocateView_def Allocation_ctor_def Offset_def Allocation_Size_def)

text \<open>
  The claim as stated fails: a view of 100 bytes at offset 200 of the 256-byte pool at
  address 4 is created, and it ends beyond the pool.
\<close>

theorem MemoryPool_AllocateView_out_of_bounds:
  "pools world0 4 = Some pool0
   \<and> mRawAllocation (MemoryPool_AllocateView 4 3 200 100) = Some 4
   \<and> \<not> (Offset (MemoryPool_AllocateView 4 3 200 100)
          + Allocation_Size (MemoryPool_AllocateView 4 3 200 100) \<le> Size pool0)"
  by (simp add: MemoryPool_AllocateView_def Allocation_ctor_def Offset_def Allocation_Size_def
        world0_def pool0_def MemoryPool_ctor_def Size_def)

subsection \<open>Allocation::operator bool\<close>

text \<open>
  Claim C3. An empty allocation should convert to false. In the code the conversion of
  the default-constructed allocation, and of every moved-from allocation, fails the
  assertion \<^verbatim>\<open>AssertImplication(!mAllocator, mRawAllocation)\<close> in every world, while the
  destructor of the same objects passes its assertion
  \<^verbatim>\<open>AssertImplication(!mAllocator, !mRawAllocation)\<close> and returns.
\<close>

theorem Allocation_operator_bool_empty_fails:
  "Allocation_operator_bool w Allocation_default = Inl AssertionFailure
   \<and> Allocation_operator_bool w (snd (Allocation_move other)) = Inl AssertionFailure
   \<and> Allocation_dtor Allocation_default w = Inr w
   \<and> both_or_neither w Allocation_default"
  by (simp add: Allocation_operator_bool_def Allocation_dtor_def Allocation_default_def
        Allocation_move_def ReflexivePointer_move_def has_Allocator_def has_RawAllocation_def
        ReflexivePointer_bool_def AssertImplication_def Assert_def both_or_neither_def)

subsection \<open>Helper facts about mapping, copying and flushing\<close>

lemma MemoryPool_Properties_cong:
  "physicalDevices w' = physicalDevices w \<Longrightarrow> mPhysicalDevice this' = mPhysicalDevice this
   \<Longrightarrow> mMemoryTypeIndex this' = mMemoryTypeIndex this
   \<Longrightarrow> MemoryPool_Properties this' w' = MemoryPool_Properties this w"
  by (simp add: MemoryPool_Properties_def split: sum.splits)

lemma MemoryPool_GetMappedAddress_mapped:
  "mMappedAddress this = Some a \<Longrightarrow> MemoryPool_GetMappedAddress drv this w = Inr (a, this, w)"
  by (simp add: MemoryPool_GetMappedAddress_def)

lemma MemoryPool_GetMappedAddress_maps:
  assumes "mMappedAddress this = None" and "MemoryPool_Properties this w = Inr props"
    and "props AND VK_MEMORY_PROPERTY_HOST_VISIBLE_BIT \<noteq> 0"
    and "MemoryPool.mDevice this = Some dev" and "dev \<in> devices w"
    and "drv (calls w) (vkMapMemory dev (mMemory this) 0 VK_WHOLE_SIZE 0) = (VK_SUCCESS, a)"
  shows "MemoryPool_GetMappedAddress drv this w =
           Inr (a, this\<lparr>mMappedAddress := Some a\<rparr>,
                w\<lparr>calls := calls w @ [vkMapMemory dev (mMemory this) 0 VK_WHOLE_SIZE 0]\<rparr>)"
  using assms
  by (simp add: MemoryPool_GetMappedAddress_def Assert_def AssertEQ_def native_def
      deref_Device_def ReflexivePointer_deref_def)

lemma MemoryPool_GetMappedAddress_unmapped:
  assumes "mMappedAddress this = None"
    and "MemoryPool_GetMappedAddress drv this w = Inr (a, this', w')"
  shows "\<exists>props dev. MemoryPool_Properties this w = Inr props
           \<and> props AND VK_MEMORY_PROPERTY_HOST_VISIBLE_BIT \<noteq> 0
           \<and> MemoryPool.mDevice this = Some dev \<and> dev \<in> devices w
           \<and> drv (calls w) (vkMapMemory dev (mMemory this) 0 VK_WHOLE_SIZE 0) = (VK_SUCCESS, a)
           \<and> this' = this\<lparr>mMappedAddress := Some a\<rparr>
           \<and> w' = w\<lparr>calls := calls w @ [vkMapMemory dev (mMemory this) 0 VK_WHOLE_SIZE 0]\<rparr>"
  using assms
  by (auto simp: MemoryPool_GetMappedAddress_def Assert_def AssertEQ_def native_def
        deref_Device_def ReflexivePointer_deref_def
        split: sum.splits option.splits if_splits prod.splits)

lemma MemoryPool_GetMappedAddress_result:
  assumes "MemoryPool_GetMappedAddress drv this w = Inr (a, this', w')"
  shows "this' = this\<lparr>mMappedAddress := Some a\<rparr> \<and> memory w' = memory w
         \<and> physicalDevices w' = physicalDevices w \<and> devices w' = devices w
         \<and> pools w' = pools w \<and> allocators w' = allocators w \<and> released w' = released w
         \<and> flushed w' = flushed w
         \<and> (\<exists>cs. calls w' = calls w @ cs \<and> filter is_flush cs = [])"
proof (cases "mMappedAddress this")
  case None
  from MemoryPool_GetMappedAddress_unmapped [OF None assms] show ?thesis
    by (auto simp: is_flush_def)
next
  case (Some b)
  with assms show ?thesis
    by (simp add: MemoryPool_GetMappedAddress_def)
qed

subsection \<open>MemoryPool::GetMappedAddress\<close>

text \<open>
  Claim C7. \<^verbatim>\<open>MemoryPool::GetMappedAddress\<close> is idempotent. On a pool that is not mapped
  yet it fails the assertion when the memory type is not host-visible; when the type is
  host-visible, the device is alive and the driver maps successfully, it makes the one
  \<open>vkMapMemory\<close> call and caches the address the driver gave. Whenever a call returns,
  the address is cached, the call made one native map if the pool was not mapped and none
  otherwise, and every later call on the resulting pool returns the identical address and
  leaves the world as it is (no native call), whatever the driver would answer.
\<close>

theorem MemoryPool_GetMappedAddress_idempotent:
  "(mMappedAddress this = None \<and> MemoryPool_Properties this w = Inr props
      \<and> props AND VK_MEMORY_PROPERTY_HOST_VISIBLE_BIT = 0
      \<longrightarrow> MemoryPool_GetMappedAddress drv this w = Inl AssertionFailure)
   \<and> (mMappedAddress this = None \<and> MemoryPool_Properties this w = Inr props
      \<and> props AND VK_MEMORY_PROPERTY_HOST_VISIBLE_BIT \<noteq> 0
      \<and> MemoryPool.mDevice this = Some dev \<and> dev \<in> devices w
      \<and> drv (calls w) (vkMapMemory dev (mMemory this) 0 VK_WHOLE_SIZE 0) = (VK_SUCCESS, a)
      \<longrightarrow> MemoryPool_GetMappedAddress drv this w =
            Inr (a, this\<lparr>mMappedAddress := Some a\<rparr>,
                 w\<lparr>calls := calls w @ [vkMapMemory dev (mMemory this) 0 VK_WHOLE_SIZE 0]\<rparr>))
   \<and> (MemoryPool_GetMappedAddress drv this w = Inr (b, this', w')
      \<longrightarrow> mMappedAddress this' = Some b
          \<and> MemoryPool_GetMappedAddress drv this' w' = Inr (b, this', w')
          \<and> (\<forall>drv' w2. MemoryPool_GetMappedAddress drv' this' w2 = Inr (b, this', w2))
          \<and> length (filter is_map (calls w')) =
              length (filter is_map (calls w)) + (if mMappedAddress this = None then 1 else 0))"
proof (intro conjI impI)
  assume "mMappedAddress this = None \<and> MemoryPool_Properties this w = Inr props
      \<and> props AND VK_MEMORY_PROPERTY_HOST_VISIBLE_BIT = 0"
  then show "MemoryPool_GetMappedAddress drv this w = Inl AssertionFailure"
    by (simp add: MemoryPool_GetMappedAddress_def Assert_def)
next
  assume "mMappedAddress this = None \<and> MemoryPool_Properties this w = Inr props
      \<and> props AND VK_MEMORY_PROPERTY_HOST_VISIBLE_BIT \<noteq> 0
      \<and> MemoryPool.mDevice this = Some dev \<and> dev \<in> devices w
      \<and> drv (calls w) (vkMapMemory dev (mMemory this) 0 VK_WHOLE_SIZE 0) = (VK_SUCCESS, a)"
  then show "MemoryPool_GetMappedAddress drv this w =
            Inr (a, this\<lparr>mMappedAddress := Some a\<rparr>,
                 w\<lparr>calls := calls w @ [vkMapMemory dev (mMemory this) 0 VK_WHOLE_SIZE 0]\<rparr>)"
    using MemoryPool_GetMappedAddress_maps [of this w props dev drv a] by simp
next
  assume r: "MemoryPool_GetMappedAddress drv this w = Inr (b, this', w')"
  then have t: "this' = this\<lparr>mMappedAddress := Some b\<rparr>"
    by (simp add: MemoryPool_GetMappedAddress_result)
  then show m: "mMappedAddress this' = Some b" by simp
  then show "MemoryPool_GetMappedAddress drv this' w' = Inr (b, this', w')"
    by (rule MemoryPool_GetMappedAddress_mapped)
  from m show "\<forall>drv' w2. MemoryPool_GetMappedAddress drv' this' w2 = Inr (b, this', w2)"
    by (simp add: MemoryPool_GetMappedAddress_mapped)
  show "length (filter is_map (calls w')) =
              length (filter is_map (calls w)) + (if mMappedAddress this = None then 1 else 0)"
  proof (cases "mMappedAddress this")
    case None
    from MemoryPool_GetMappedAddress_unmapped [OF None r] show ?thesis
      using None by (auto simp: is_map_def)
  next
    case (Some c)
    with r show ?thesis by (simp add: MemoryPool_GetMappedAddress_def)
  qed
qed


lemma ptr_add_inj: "i < j \<Longrightarrow> j < 2 ^ 64 \<Longrightarrow> ptr_add p i \<noteq> ptr_add p j"
proof
  assume ij: "i < j" and j: "j < (2 :: nat) ^ 64" and e: "ptr_add p i = ptr_add p j"
  from ij have "p + i \<le> p + j" by simp
  from mod_eq_dvd_iff_nat [OF this, of "2 ^ 64"] e have "(2 :: nat) ^ 64 dvd j - i"
    by (simp add: ptr_add_def)
  moreover from ij j have "0 < j - i" "j - i < 2 ^ 64" by simp_all
  ultimately show False by (simp add: nat_dvd_not_less)
qed

lemma ptr_add_small: "p + n < 2 ^ 64 \<Longrightarrow> ptr_add p n = p + n"
  by (simp add: ptr_add_def)

lemma copy_other:
  "(\<forall>i<n. a \<noteq> ptr_add dst i) \<Longrightarrow>
   fold (\<lambda>i m. m(ptr_add dst i := src ! i)) [0..<n] m a = m a"
  by (induction n) simp_all

lemma copy_nth:
  "n \<le> 2 ^ 64 \<Longrightarrow> i < n \<Longrightarrow>
   fold (\<lambda>i m. m(ptr_add dst i := src ! i)) [0..<n] m (ptr_add dst i) = src ! i"
proof (induction n)
  case 0
  then show ?case by simp
next
  case (Suc n)
  show ?case
  proof (cases "i = n")
    case True
    then show ?thesis by simp
  next
    case False
    with Suc.prems have i: "i < n" and n: "n < 2 ^ 64" by simp_all
    from ptr_add_inj [OF i n] have "ptr_add dst i \<noteq> ptr_add dst n" .
    with Suc.IH i n show ?thesis by simp
  qed
qed

lemma memcpy_other:
  "(\<forall>i<n. a \<noteq> ptr_add dst i) \<Longrightarrow> memory (memcpy dst src n w) a = memory w a"
  by (simp add: memcpy_def copy_other)

lemma memcpy_nth:
  "n \<le> 2 ^ 64 \<Longrightarrow> i < n \<Longrightarrow> memory (memcpy dst src n w) (ptr_add dst i) = src ! i"
  by (simp add: memcpy_def copy_nth)

lemma memcpy_fields:
  "calls (memcpy dst src n w) = calls w" "pools (memcpy dst src n w) = pools w"
  "devices (memcpy dst src n w) = devices w" "allocators (memcpy dst src n w) = allocators w"
  "physicalDevices (memcpy dst src n w) = physicalDevices w"
  "released (memcpy dst src n w) = released w" "flushed (memcpy dst src n w) = flushed w"
  by (simp_all add: memcpy_def)

lemma MemoryPool_Flush_result:
  assumes "MemoryPool_Flush drv this w = Inr w'"
  shows "\<exists>dev. MemoryPool.mDevice this = Some dev \<and> dev \<in> devices w
           \<and> fst (drv (calls w) (vkFlushMappedMemoryRanges dev (mMemory this) 0 VK_WHOLE_SIZE)) = VK_SUCCESS
           \<and> w' = w\<lparr>calls := calls w @ [vkFlushMappedMemoryRanges dev (mMemory this) 0 VK_WHOLE_SIZE],
                    flushed := flushed w @ [memory w]\<rparr>"
  using assms
  by (auto simp: MemoryPool_Flush_def AssertEQ_def Assert_def native_def
        deref_Device_def ReflexivePointer_deref_def
        split: sum.splits option.splits if_splits prod.splits)

lemma MemoryPool_Flush_succeeds:
  assumes "MemoryPool.mDevice this = Some dev" and "dev \<in> devices w"
    and "fst (drv (calls w) (vkFlushMappedMemoryRanges dev (mMemory this) 0 VK_WHOLE_SIZE)) = VK_SUCCESS"
  shows "MemoryPool_Flush drv this w =
           Inr (w\<lparr>calls := calls w @ [vkFlushMappedMemoryRanges dev (mMemory this) 0 VK_WHOLE_SIZE],
                  flushed := flushed w @ [memory w]\<rparr>)"
  using assms
  by (auto simp: MemoryPool_Flush_def AssertEQ_def Assert_def native_def
        deref_Device_def ReflexivePointer_deref_def
        split: sum.splits option.splits if_splits prod.splits)

lemma MemoryPool_Overwrite_too_long:
  "Size this < length bytes \<Longrightarrow> MemoryPool_Overwrite drv this bytes w = Inl AssertionFailure"
  by (simp add: MemoryPool_Overwrite_def Assert_def)

lemma MemoryPool_Overwrite_result:
  assumes ov: "MemoryPool_Overwrite drv this bytes w = Inr (this', w')"
  shows "length bytes \<le> Size this
     \<and> (\<exists>base this1 w1 props.
          MemoryPool_GetMappedAddress drv this w = Inr (base, this1, w1)
        \<and> MemoryPool_Properties this w = Inr props
        \<and> this' = this1
        \<and> memory w' = memory (memcpy base bytes (length bytes) w1)
        \<and> (if props AND VK_MEMORY_PROPERTY_HOST_COHERENT_BIT = 0
            then MemoryPool_Flush drv this1 (memcpy base bytes (length bytes) w1) = Inr w'
            else w' = memcpy base bytes (length bytes) w1))"
proof -
  from ov have len: "length bytes \<le> Size this"
    by (auto simp: MemoryPool_Overwrite_def Assert_def split: if_splits)
  from ov len obtain base this1 w1 where
    g: "MemoryPool_GetMappedAddress drv this w = Inr (base, this1, w1)"
    by (auto simp: MemoryPool_Overwrite_def Assert_def split: sum.splits)
  note r = MemoryPool_GetMappedAddress_result [OF g]
  have p: "MemoryPool_Properties this1 (memcpy base bytes (length bytes) w1)
           = MemoryPool_Properties this w"
    using r by (intro MemoryPool_Properties_cong) (simp_all add: memcpy_fields)
  from ov len g p obtain props where pr: "MemoryPool_Properties this w = Inr props"
    by (auto simp: MemoryPool_Overwrite_def Assert_def split: sum.splits)
  show ?thesis
  proof (cases "props AND VK_MEMORY_PROPERTY_HOST_COHERENT_BIT = 0")
    case True
    with ov len g p pr obtain w3 where
      f: "MemoryPool_Flush drv this1 (memcpy base bytes (length bytes) w1) = Inr w3"
      and e: "this' = this1" "w' = w3"
      by (auto simp: MemoryPool_Overwrite_def Assert_def split: sum.splits)
    from MemoryPool_Flush_result [OF f] have "memory w3 = memory (memcpy base bytes (length bytes) w1)"
      by auto
    with True len g pr f e show ?thesis by simp
  next
    case False
    with ov len g p pr show ?thesis
      by (auto simp: MemoryPool_Overwrite_def Assert_def split: sum.splits)
  qed
qed


lemma MemoryPool_Overwrite_value:
  assumes len: "length bytes \<le> Size this"
    and g: "MemoryPool_GetMappedAddress drv this w = Inr (base, this1, w1)"
    and pr: "MemoryPool_Properties this w = Inr props"
    and fl: "props AND VK_MEMORY_PROPERTY_HOST_COHERENT_BIT = 0 \<Longrightarrow>
             MemoryPool.mDevice this = Some dev \<and> dev \<in> devices w
             \<and> fst (drv (calls w1) (vkFlushMappedMemoryRanges dev (mMemory this) 0 VK_WHOLE_SIZE)) = VK_SUCCESS"
  shows "MemoryPool_Overwrite drv this bytes w =
           Inr (this1,
                if props AND VK_MEMORY_PROPERTY_HOST_COHERENT_BIT = 0
                then (memcpy base bytes (length bytes) w1)
                       \<lparr>calls := calls w1 @ [vkFlushMappedMemoryRanges dev (mMemory this) 0 VK_WHOLE_SIZE],
                        flushed := flushed w1 @ [memory (memcpy base bytes (length bytes) w1)]\<rparr>
                else memcpy base bytes (length bytes) w1)"
proof -
  note r = MemoryPool_GetMappedAddress_result [OF g]
  have "MemoryPool_Properties this1 (memcpy base bytes (length bytes) w1)
        = MemoryPool_Properties this w"
    using r by (intro MemoryPool_Properties_cong) (simp_all add: memcpy_fields)
  with pr have p: "MemoryPool_Properties this1 (memcpy base bytes (length bytes) w1) = Inr props"
    by simp
  show ?thesis
  proof (cases "props AND VK_MEMORY_PROPERTY_HOST_COHERENT_BIT = 0")
    case True
    with fl r have "MemoryPool_Flush drv this1 (memcpy base bytes (length bytes) w1) =
        Inr ((memcpy base bytes (length bytes) w1)
               \<lparr>calls := calls (memcpy base bytes (length bytes) w1)
                   @ [vkFlushMappedMemoryRanges dev (mMemory this1) 0 VK_WHOLE_SIZE],
                flushed := flushed (memcpy base bytes (length bytes) w1)
                   @ [memory (memcpy base bytes (length bytes) w1)]\<rparr>)"
      by (intro MemoryPool_Flush_succeeds) (simp_all add: memcpy_fields)
    with len g p True r show ?thesis
      by (simp add: MemoryPool_Overwrite_def Assert_def memcpy_fields)
  next
    case False
    with len g p show ?thesis
      by (simp add: MemoryPool_Overwrite_def Assert_def)
  qed
qed

subsection \<open>MemoryPool::Overwrite\<close>

text \<open>
  Claim C8. \<^verbatim>\<open>MemoryPool::Overwrite\<close> fails the assertion when the buffer is longer than
  the pool. When it returns, the buffer was no longer than the pool; the bytes stand in
  host memory from the mapped address on (offset 0) and no other byte changed; and a
  flush was made if and only if the memory type lacks the host-coherent bit: for such a
  type the flush of the whole range is the last native call and the only flush, and what
  it published is the host memory as the call leaves it, that is, with the bytes already
  copied; for a host-coherent type no flush is called and nothing is published. It does
  return when the buffer fits, mapping succeeds and, for a non-coherent type, the device
  is alive and the driver flushes successfully.
\<close>

theorem MemoryPool_Overwrite_copies_then_flushes:
  "(Size this < length bytes \<longrightarrow> MemoryPool_Overwrite drv this bytes w = Inl AssertionFailure)
   \<and> (MemoryPool_Overwrite drv this bytes w = Inr (this', w') \<longrightarrow>
        length bytes \<le> Size this
      \<and> (\<exists>base wm. MemoryPool_GetMappedAddress drv this w = Inr (base, this', wm)
           \<and> (length bytes \<le> 2 ^ 64 \<longrightarrow>
                (\<forall>i<length bytes. memory w' (ptr_add base i) = bytes ! i))
           \<and> (\<forall>a. (\<forall>i<length bytes. a \<noteq> ptr_add base i) \<longrightarrow> memory w' a = memory w a))
      \<and> (\<exists>props. MemoryPool_Properties this w = Inr props
           \<and> (props AND VK_MEMORY_PROPERTY_HOST_COHERENT_BIT = 0 \<longrightarrow>
                (\<exists>dev cs. MemoryPool.mDevice this = Some dev
                   \<and> calls w' = calls w @ cs @ [vkFlushMappedMemoryRanges dev (mMemory this) 0 VK_WHOLE_SIZE]
                   \<and> filter is_flush cs = []
                   \<and> flushed w' = flushed w @ [memory w']))
           \<and> (props AND VK_MEMORY_PROPERTY_HOST_COHERENT_BIT \<noteq> 0 \<longrightarrow>
                (\<exists>cs. calls w' = calls w @ cs \<and> filter is_flush cs = [])
                \<and> flushed w' = flushed w)))
   \<and> (length bytes \<le> Size this
        \<and> MemoryPool_GetMappedAddress drv this w = Inr (base, thism, wm)
        \<and> MemoryPool_Properties this w = Inr props
        \<and> (props AND VK_MEMORY_PROPERTY_HOST_COHERENT_BIT = 0 \<longrightarrow>
             MemoryPool.mDevice this = Some dev \<and> dev \<in> devices w
             \<and> fst (drv (calls wm) (vkFlushMappedMemoryRanges dev (mMemory this) 0 VK_WHOLE_SIZE)) = VK_SUCCESS)
      \<longrightarrow> (\<exists>w'. MemoryPool_Overwrite drv this bytes w = Inr (thism, w')))"
proof (intro conjI impI)
  assume "Size this < length bytes"
  then show "MemoryPool_Overwrite drv this bytes w = Inl AssertionFailure"
    by (rule MemoryPool_Overwrite_too_long)
next
  assume ov: "MemoryPool_Overwrite drv this bytes w = Inr (this', w')"
  from MemoryPool_Overwrite_result [OF ov] obtain base w1 props where
    len: "length bytes \<le> Size this"
    and g: "MemoryPool_GetMappedAddress drv this w = Inr (base, this', w1)"
    and pr: "MemoryPool_Properties this w = Inr props"
    and mem: "memory w' = memory (memcpy base bytes (length bytes) w1)"
    and fl: "if props AND VK_MEMORY_PROPERTY_HOST_COHERENT_BIT = 0
             then MemoryPool_Flush drv this' (memcpy base bytes (length bytes) w1) = Inr w'
             else w' = memcpy base bytes (length bytes) w1"
    by blast
  note r = MemoryPool_GetMappedAddress_result [OF g]
  from r obtain cs1 where cs1: "calls w1 = calls w @ cs1" "filter is_flush cs1 = []"
    by blast
  from r have m1: "memory w1 = memory w" and f1: "flushed w1 = flushed w" by simp_all
  show "length bytes \<le> Size this" by (rule len)
  have "length bytes \<le> 2 ^ 64 \<longrightarrow> (\<forall>i<length bytes. memory w' (ptr_add base i) = bytes ! i)"
    using mem by (simp add: memcpy_nth)
  moreover have "\<forall>a. (\<forall>i<length bytes. a \<noteq> ptr_add base i) \<longrightarrow> memory w' a = memory w a"
    using mem m1 by (simp add: memcpy_other)
  ultimately show "\<exists>base wm. MemoryPool_GetMappedAddress drv this w = Inr (base, this', wm)
      \<and> (length bytes \<le> 2 ^ 64 \<longrightarrow> (\<forall>i<length bytes. memory w' (ptr_add base i) = bytes ! i))
      \<and> (\<forall>a. (\<forall>i<length bytes. a \<noteq> ptr_add base i) \<longrightarrow> memory w' a = memory w a)"
    using g by blast
  have "props AND VK_MEMORY_PROPERTY_HOST_COHERENT_BIT = 0 \<longrightarrow>
          (\<exists>dev cs. MemoryPool.mDevice this = Some dev
             \<and> calls w' = calls w @ cs @ [vkFlushMappedMemoryRanges dev (mMemory this) 0 VK_WHOLE_SIZE]
             \<and> filter is_flush cs = []
             \<and> flushed w' = flushed w @ [memory w'])"
  proof
    assume "props AND VK_MEMORY_PROPERTY_HOST_COHERENT_BIT = 0"
    with fl have "MemoryPool_Flush drv this' (memcpy base bytes (length bytes) w1) = Inr w'"
      by simp
    from MemoryPool_Flush_result [OF this] obtain dev where
      d: "MemoryPool.mDevice this' = Some dev"
      and w': "w' = (memcpy base bytes (length bytes) w1)
                 \<lparr>calls := calls (memcpy base bytes (length bytes) w1)
                     @ [vkFlushMappedMemoryRanges dev (mMemory this') 0 VK_WHOLE_SIZE],
                  flushed := flushed (memcpy base bytes (length bytes) w1)
                     @ [memory (memcpy base bytes (length bytes) w1)]\<rparr>"
      by blast
    from r have t: "MemoryPool.mDevice this' = MemoryPool.mDevice this" "mMemory this' = mMemory this"
      by simp_all
    have "calls w' = calls w @ cs1 @ [vkFlushMappedMemoryRanges dev (mMemory this) 0 VK_WHOLE_SIZE]"
      using w' cs1 t by (simp add: memcpy_fields)
    moreover have "flushed w' = flushed w @ [memory w']"
      using w' f1 by (simp add: memcpy_fields)
    ultimately show "\<exists>dev cs. MemoryPool.mDevice this = Some dev
             \<and> calls w' = calls w @ cs @ [vkFlushMappedMemoryRanges dev (mMemory this) 0 VK_WHOLE_SIZE]
             \<and> filter is_flush cs = []
             \<and> flushed w' = flushed w @ [memory w']"
      using d t cs1 by auto
  qed
  moreover have "props AND VK_MEMORY_PROPERTY_HOST_COHERENT_BIT \<noteq> 0 \<longrightarrow>
          (\<exists>cs. calls w' = calls w @ cs \<and> filter is_flush cs = []) \<and> flushed w' = flushed w"
    using fl cs1 f1 by (auto simp: memcpy_fields)
  ultimately show "\<exists>props. MemoryPool_Properties this w = Inr props
           \<and> (props AND VK_MEMORY_PROPERTY_HOST_COHERENT_BIT = 0 \<longrightarrow>
                (\<exists>dev cs. MemoryPool.mDevice this = Some dev
                   \<and> calls w' = calls w @ cs @ [vkFlushMappedMemoryRanges dev (mMemory this) 0 VK_WHOLE_SIZE]
                   \<and> filter is_flush cs = []
                   \<and> flushed w' = flushed w @ [memory w']))
           \<and> (props AND VK_MEMORY_PROPERTY_HOST_COHERENT_BIT \<noteq> 0 \<longrightarrow>
                (\<exists>cs. calls w' = calls w @ cs \<and> filter is_flush cs = [])
                \<and> flushed w' = flushed w)"
    using pr by blast
next
  assume a: "length bytes \<le> Size this
        \<and> MemoryPool_GetMappedAddress drv this w = Inr (base, thism, wm)
        \<and> MemoryPool_Properties this w = Inr props
        \<and> (props AND VK_MEMORY_PROPERTY_HOST_COHERENT_BIT = 0 \<longrightarrow>
             MemoryPool.mDevice this = Some dev \<and> dev \<in> devices w
             \<and> fst (drv (calls wm) (vkFlushMappedMemoryRanges dev (mMemory this) 0 VK_WHOLE_SIZE)) = VK_SUCCESS)"
  then have "MemoryPool_Overwrite drv this bytes w =
           Inr (thism,
                if props AND VK_MEMORY_PROPERTY_HOST_COHERENT_BIT = 0
                then (memcpy base bytes (length bytes) wm)
                       \<lparr>calls := calls wm @ [vkFlushMappedMemoryRanges dev (mMemory this) 0 VK_WHOLE_SIZE],
                        flushed := flushed wm @ [memory (memcpy base bytes (length bytes) wm)]\<rparr>
                else memcpy base bytes (length bytes) wm)"
    by (intro MemoryPool_Overwrite_value) simp_all
  then show "\<exists>w'. MemoryPool_Overwrite drv this bytes w = Inr (thism, w')"
    by blast
qed

lemma Allocation_GetMappedAddress_result:
  assumes "Allocation_GetMappedAddress drv this w = Inr (a, w')"
  shows "\<exists>p pool base pool' w1. mRawAllocation this = Some p \<and> pools w p = Some pool
           \<and> MemoryPool_GetMappedAddress drv pool w = Inr (base, pool', w1)
           \<and> a = ptr_add base (mOffset this) \<and> w' = w1\<lparr>pools := (pools w1)(p \<mapsto> pool')\<rparr>"
  using assms
  by (auto simp: Allocation_GetMappedAddress_def deref_MemoryPool_def ReflexivePointer_deref_def
        split: sum.splits option.splits prod.splits)

lemma Allocation_GetMappedAddress_succeeds:
  assumes "mRawAllocation this = Some p" and "pools w p = Some pool"
    and "MemoryPool_GetMappedAddress drv pool w = Inr (base, pool', w1)"
  shows "Allocation_GetMappedAddress drv this w =
           Inr (ptr_add base (mOffset this), w1\<lparr>pools := (pools w1)(p \<mapsto> pool')\<rparr>)"
  using assms
  by (simp add: Allocation_GetMappedAddress_def deref_MemoryPool_def ReflexivePointer_deref_def)

lemma Allocation_Overwrite_never_flushes:
  assumes "Allocation_Overwrite drv this bytes w = Inr w'"
  shows "\<exists>cs. calls w' = calls w @ cs \<and> filter is_flush cs = []"
proof -
  from assms obtain a w1 where g: "Allocation_GetMappedAddress drv this w = Inr (a, w1)"
    and w': "w' = memcpy a bytes (length bytes) w1"
    by (auto simp: Allocation_Overwrite_def Assert_def split: sum.splits if_splits)
  from Allocation_GetMappedAddress_result [OF g] obtain p pool base pool' w2 where
    m: "MemoryPool_GetMappedAddress drv pool w = Inr (base, pool', w2)"
    and w1: "w1 = w2\<lparr>pools := (pools w2)(p \<mapsto> pool')\<rparr>"
    by blast
  from MemoryPool_GetMappedAddress_result [OF m] w1 w' show ?thesis
    by (auto simp: memcpy_fields)
qed

lemma Allocation_Overwrite_value:
  assumes "length bytes \<le> Allocation_Size this" and "mRawAllocation this = Some p"
    and "pools w p = Some pool"
    and "MemoryPool_GetMappedAddress drv pool w = Inr (base, pool', w1)"
  shows "Allocation_Overwrite drv this bytes w =
           Inr (memcpy (ptr_add base (mOffset this)) bytes (length bytes)
                  (w1\<lparr>pools := (pools w1)(p \<mapsto> pool')\<rparr>))"
  using assms Allocation_GetMappedAddress_succeeds [of this p w pool drv base pool' w1]
  by (simp add: Allocation_Overwrite_def Assert_def)

subsection \<open>Allocation::Overwrite\<close>

text \<open>
  Claim C9. \<^verbatim>\<open>Allocation::Overwrite\<close> with a buffer longer than the allocation's size
  fails the assertion, for every length, and it returns only when the buffer fits. With
  a buffer that fits, a live pool and a successful mapping at \<open>base\<close>, it returns; the
  bytes stand in host memory from the pointer \<open>base + Offset\<close> on, where the pointer
  addition and the addresses of the bytes wrap around at \<open>2 ^ 64\<close> as they do in the code;
  no other byte changed; and the pool in the store has the mapping cached. (A buffer has
  at most \<open>2 ^ 64\<close> bytes; a longer one would overwrite its own first bytes.)
\<close>

theorem Allocation_Overwrite_bounds:
  "(Allocation_Size this < length bytes \<longrightarrow>
      Allocation_Overwrite drv this bytes w = Inl AssertionFailure)
   \<and> (length bytes \<le> Allocation_Size this \<and> mRawAllocation this = Some p \<and> pools w p = Some pool
        \<and> MemoryPool_GetMappedAddress drv pool w = Inr (base, pool', wm)
      \<longrightarrow> (\<exists>w'. Allocation_Overwrite drv this bytes w = Inr w'
             \<and> (length bytes \<le> 2 ^ 64 \<longrightarrow>
                  (\<forall>i<length bytes.
                     memory w' (ptr_add (ptr_add base (Offset this)) i) = bytes ! i))
             \<and> (\<forall>a. (\<forall>i<length bytes. a \<noteq> ptr_add (ptr_add base (Offset this)) i)
                    \<longrightarrow> memory w' a = memory w a)
             \<and> pools w' p = Some pool'))
   \<and> (Allocation_Overwrite drv this bytes w = Inr w' \<longrightarrow> length bytes \<le> Allocation_Size this)"
proof (intro conjI impI)
  assume "Allocation_Size this < length bytes"
  then show "Allocation_Overwrite drv this bytes w = Inl AssertionFailure"
    by (simp add: Allocation_Overwrite_def Assert_def)
next
  assume a: "length bytes \<le> Allocation_Size this \<and> mRawAllocation this = Some p
        \<and> pools w p = Some pool
        \<and> MemoryPool_GetMappedAddress drv pool w = Inr (base, pool', wm)"
  then have m: "MemoryPool_GetMappedAddress drv pool w = Inr (base, pool', wm)" by simp
  note r = MemoryPool_GetMappedAddress_result [OF m]
  let ?w' = "memcpy (ptr_add base (mOffset this)) bytes (length bytes)
               (wm\<lparr>pools := (pools wm)(p \<mapsto> pool')\<rparr>)"
  from a have "Allocation_Overwrite drv this bytes w = Inr ?w'"
    using Allocation_Overwrite_value [of bytes this p w pool drv base pool' wm] by simp
  moreover have "length bytes \<le> 2 ^ 64 \<longrightarrow>
      (\<forall>i<length bytes. memory ?w' (ptr_add (ptr_add base (Offset this)) i) = bytes ! i)"
    by (simp add: memcpy_nth Offset_def)
  moreover have "\<forall>a. (\<forall>i<length bytes. a \<noteq> ptr_add (ptr_add base (Offset this)) i)
                    \<longrightarrow> memory ?w' a = memory w a"
    using r by (simp add: memcpy_other Offset_def)
  moreover have "pools ?w' p = Some pool'"
    by (simp add: memcpy_fields)
  ultimately show "\<exists>w'. Allocation_Overwrite drv this bytes w = Inr w'
             \<and> (length bytes \<le> 2 ^ 64 \<longrightarrow>
                  (\<forall>i<length bytes.
                     memory w' (ptr_add (ptr_add base (Offset this)) i) = bytes ! i))
             \<and> (\<forall>a. (\<forall>i<length bytes. a \<noteq> ptr_add (ptr_add base (Offset this)) i)
                    \<longrightarrow> memory w' a = memory w a)
             \<and> pools w' p = Some pool'"
    by blast
next
  assume "Allocation_Overwrite drv this bytes w = Inr w'"
  then show "length bytes \<le> Allocation_Size this"
    by (auto simp: Allocation_Overwrite_def Assert_def split: if_splits)
qed

subsection \<open>The end-to-end scenario, evaluated\<close>

lemma pool0_fields:
  "mMappedAddress pool0 = None" "MemoryPool.mDevice pool0 = Some 1" "mMemory pool0 = 7"
  "Size pool0 = 256" "mPhysicalDevice pool0 = Some 2" "mMemoryTypeIndex pool0 = 0"
  by (simp_all add: pool0_def MemoryPool_ctor_def Size_def)

lemma world0_fields:
  "devices world0 = {1}" "calls world0 = []" "pools world0 4 = Some pool0"
  "physicalDevices world0 2 = Some physicalDevice0" "allocators world0 = {3}"
  "released world0 = []" "memory world0 a = 0" "flushed world0 = []"
  by (simp_all add: world0_def)

lemma allocation0_fields:
  "mRawAllocation allocation0 = Some 4" "mAllocator allocation0 = Some 3"
  "mOffset allocation0 = 0" "Allocation_Size allocation0 = 64"
  by (simp_all add: allocation0_def MemoryPool_AllocateView_def Allocation_ctor_def
      Allocation_Size_def)

lemma pool0_props: "MemoryPool_Properties pool0 world0 = Inr 2"
  by (simp add: MemoryPool_Properties_def pool0_fields world0_fields
      physicalDevice0_def ReflexivePointer_deref_def)

lemma pool0_map:
  "MemoryPool_GetMappedAddress driver0 pool0 world0 =
     Inr (4096, pool0\<lparr>mMappedAddress := Some 4096\<rparr>,
          world0\<lparr>calls := calls world0 @ [vkMapMemory 1 (mMemory pool0) 0 VK_WHOLE_SIZE 0]\<rparr>)"
  by (rule MemoryPool_GetMappedAddress_maps [where props = 2])
    (simp_all add: pool0_fields world0_fields pool0_props driver0_def
      VK_MEMORY_PROPERTY_HOST_VISIBLE_BIT_def)

text \<open>
  Claim C2. The claim asks \<^verbatim>\<open>Allocation::Overwrite\<close> to flush on a pool that is not
  host-coherent. In the end-to-end scenario (a 256-byte host-visible, non-coherent pool,
  an allocation of 64 bytes at offset 0, 64 bytes of \<open>0xAB\<close>) the code writes the bytes
  and its only native call is the mapping: no flush is made. \<^verbatim>\<open>MemoryPool::Overwrite\<close>
  on the same pool with the same bytes does flush.
\<close>

theorem Allocation_Overwrite_scenario_no_flush:
  "MemoryPool_Properties pool0 world0 = Inr 2
   \<and> (2 :: VkMemoryPropertyFlags) AND VK_MEMORY_PROPERTY_HOST_COHERENT_BIT = 0
   \<and> (case Allocation_Overwrite driver0 allocation0 (replicate 64 0xAB) world0 of
        Inl f \<Rightarrow> False
      | Inr w' \<Rightarrow> calls w' = [vkMapMemory 1 7 0 VK_WHOLE_SIZE 0]
                 \<and> filter is_flush (calls w') = []
                 \<and> memory w' 4096 = 0xAB \<and> memory w' 4159 = 0xAB)
   \<and> (case MemoryPool_Overwrite driver0 pool0 (replicate 64 0xAB) world0 of
        Inl f \<Rightarrow> False
      | Inr (this', w') \<Rightarrow>
          calls w' = [vkMapMemory 1 7 0 VK_WHOLE_SIZE 0,
                      vkFlushMappedMemoryRanges 1 7 0 VK_WHOLE_SIZE])"
proof -
  let ?bytes = "replicate 64 (0xAB :: 8 word)"
  let ?wm = "world0\<lparr>calls := calls world0 @ [vkMapMemory 1 (mMemory pool0) 0 VK_WHOLE_SIZE 0]\<rparr>"
  let ?wp = "?wm\<lparr>pools := (pools ?wm)(4 \<mapsto> pool0\<lparr>mMappedAddress := Some 4096\<rparr>)\<rparr>"
  have nc: "2 AND VK_MEMORY_PROPERTY_HOST_COHERENT_BIT = (0 :: 32 word)"
    by (simp add: VK_MEMORY_PROPERTY_HOST_COHERENT_BIT_def)
  have a: "Allocation_Overwrite driver0 allocation0 ?bytes world0 = Inr (memcpy 4096 ?bytes 64 ?wp)"
    using Allocation_Overwrite_value
      [of ?bytes allocation0 4 world0 pool0 driver0 4096 "pool0\<lparr>mMappedAddress := Some 4096\<rparr>" ?wm]
    by (simp add: allocation0_fields world0_fields pool0_map ptr_add_def)
  have m0: "memory (memcpy 4096 ?bytes 64 ?wp) 4096 = 0xAB"
    using memcpy_nth [of 64 0 4096 ?bytes ?wp] by (simp add: ptr_add_def)
  have m63: "memory (memcpy 4096 ?bytes 64 ?wp) 4159 = 0xAB"
    using memcpy_nth [of 64 63 4096 ?bytes ?wp] by (simp add: ptr_add_def)
  have b: "MemoryPool_Overwrite driver0 pool0 ?bytes world0 =
           Inr (pool0\<lparr>mMappedAddress := Some 4096\<rparr>,
                if 2 AND VK_MEMORY_PROPERTY_HOST_COHERENT_BIT = 0
                then (memcpy 4096 ?bytes (length ?bytes) ?wm)
                       \<lparr>calls := calls ?wm @ [vkFlushMappedMemoryRanges 1 (mMemory pool0) 0 VK_WHOLE_SIZE],
                        flushed := flushed ?wm @ [memory (memcpy 4096 ?bytes (length ?bytes) ?wm)]\<rparr>
                else memcpy 4096 ?bytes (length ?bytes) ?wm)"
    by (rule MemoryPool_Overwrite_value [where props = 2 and dev = 1])
      (simp_all add: pool0_fields world0_fields pool0_map pool0_props driver0_def)
  from m0 m63 show ?thesis
    by (simp add: a b nc pool0_props memcpy_fields pool0_fields world0_fields is_flush_def)
qed

lemma pool1_fields:
  "mMappedAddress pool1 = None" "MemoryPool.mDevice pool1 = Some 1" "mMemory pool1 = 8"
  "Size pool1 = 256" "mPhysicalDevice pool1 = Some 2" "mMemoryTypeIndex pool1 = 1"
  by (simp_all add: pool1_def MemoryPool_ctor_def Size_def)

lemma pool1_props: "MemoryPool_Properties pool1 world0 = Inr 6"
  by (simp add: MemoryPool_Properties_def pool1_fields world0_fields
      physicalDevice0_def ReflexivePointer_deref_def)

lemma pool1_map:
  "MemoryPool_GetMappedAddress driver0 pool1 world0 =
     Inr (4096, pool1\<lparr>mMappedAddress := Some 4096\<rparr>,
          world0\<lparr>calls := calls world0 @ [vkMapMemory 1 (mMemory pool1) 0 VK_WHOLE_SIZE 0]\<rparr>)"
  by (rule MemoryPool_GetMappedAddress_maps [where props = 6])
    (simp_all add: pool1_fields world0_fields pool1_props driver0_def
      VK_MEMORY_PROPERTY_HOST_VISIBLE_BIT_def)

lemma pool2_props: "MemoryPool_Properties pool2 world0 = Inr 1"
  by (simp add: MemoryPool_Properties_def pool2_def MemoryPool_ctor_def world0_fields
      physicalDevice0_def ReflexivePointer_deref_def)

subsection \<open>The theorems at the concrete device\<close>

lemma allocation1_fields:
  "mRawAllocation allocation1 = Some 4" "mAllocator allocation1 = Some 3"
  "Offset allocation1 = 16" "Allocation_Size allocation1 = 16"
  by (simp_all add: allocation1_def MemoryPool_AllocateView_def Allocation_ctor_def
      Allocation_Size_def Offset_def)

lemma allocation2_fields:
  "mRawAllocation allocation2 = Some 4" "mAllocator allocation2 = Some 3"
  "Offset allocation2 = 2 ^ 64 - 1" "Allocation_Size allocation2 = 16"
  by (simp_all add: allocation2_def MemoryPool_AllocateView_def Allocation_ctor_def
      Allocation_Size_def Offset_def)

theorem MemoryPool_Allocate_classifies_witness:
  "driver0 (calls world0) (vkAllocateMemory 1 256 0) = (VK_SUCCESS, 4096)
   \<and> (\<exists>pool w'. MemoryPool_Allocate driver0 1 2 0 256 world0 = Inr (Inr pool, w')
         \<and> Size pool = 256 \<and> MemoryTypeIndex pool = 0 \<and> Memory pool = 4096
         \<and> mMappedAddress pool = None)
   \<and> (\<exists>e w'. MemoryPool_Allocate (driver_failing VK_ERROR_OUT_OF_HOST_MEMORY) 1 2 0 256 world0
                = Inr (Inl e, w')
         \<and> IsType OutOfMemory e \<and> AllocationError_ctor OutOfMemory = Some e)
   \<and> (\<exists>e w'. MemoryPool_Allocate (driver_failing VK_ERROR_OUT_OF_DEVICE_MEMORY) 1 2 0 256 world0
                = Inr (Inl e, w')
         \<and> IsType OutOfMemory e \<and> AllocationError_ctor OutOfMemory = Some e)
   \<and> MemoryPool_Allocate (driver_failing (- 3)) 1 2 0 256 world0 = Inl Unreachable"
proof -
  have ok: "driver0 (calls world0) (vkAllocateMemory 1 256 0) = (VK_SUCCESS, 4096)"
    by (simp add: driver0_def)
  have host: "driver_failing VK_ERROR_OUT_OF_HOST_MEMORY (calls world0) (vkAllocateMemory 1 256 0)
              = (VK_ERROR_OUT_OF_HOST_MEMORY, 0)"
    and dev: "driver_failing VK_ERROR_OUT_OF_DEVICE_MEMORY (calls world0) (vkAllocateMemory 1 256 0)
              = (VK_ERROR_OUT_OF_DEVICE_MEMORY, 0)"
    and other: "driver_failing (- 3) (calls world0) (vkAllocateMemory 1 256 0) = (- 3, 0)"
    by (simp_all add: driver_failing_def)
  have ne: "(- 3 :: int) \<noteq> VK_ERROR_OUT_OF_HOST_MEMORY \<and> - 3 \<noteq> VK_ERROR_OUT_OF_DEVICE_MEMORY
            \<and> - 3 \<noteq> VK_SUCCESS"
    by (simp add: VK_SUCCESS_def VK_ERROR_OUT_OF_HOST_MEMORY_def VK_ERROR_OUT_OF_DEVICE_MEMORY_def)
  note a = MemoryPool_Allocate_classifies
      [where drv = "driver0" and w = world0 and dev = 1 and sz = 256
         and memoryTypeIndex = 0 and r = "VK_SUCCESS" and h = 4096 and physicalDevice = 2,
        OF ok, THEN conjunct2, THEN conjunct1, rule_format, OF refl]
  note b = MemoryPool_Allocate_classifies
      [where drv = "driver_failing VK_ERROR_OUT_OF_HOST_MEMORY" and w = world0 and dev = 1 and sz = 256
         and memoryTypeIndex = 0 and r = "VK_ERROR_OUT_OF_HOST_MEMORY" and h = 0 and physicalDevice = 2,
        OF host, THEN conjunct1, rule_format, OF disjI1, OF refl]
  note c = MemoryPool_Allocate_classifies
      [where drv = "driver_failing VK_ERROR_OUT_OF_DEVICE_MEMORY" and w = world0 and dev = 1 and sz = 256
         and memoryTypeIndex = 0 and r = "VK_ERROR_OUT_OF_DEVICE_MEMORY" and h = 0 and physicalDevice = 2,
        OF dev, THEN conjunct1, rule_format, OF disjI2, OF refl]
  note d = MemoryPool_Allocate_classifies
      [where drv = "driver_failing (- 3)" and w = world0 and dev = 1 and sz = 256
         and memoryTypeIndex = 0 and r = "- 3" and h = 0 and physicalDevice = 2,
        OF other, THEN conjunct2, THEN conjunct2, THEN conjunct1,
        rule_format, OF ne]
  show ?thesis
    by (intro conjI ok a b c d)
qed



theorem MemoryPool_Overwrite_copies_then_flushes_witness:
  "MemoryPool_Overwrite driver0 pool0 (replicate 257 0) world0 = Inl AssertionFailure
   \<and> (\<exists>w' cs. MemoryPool_Overwrite driver0 pool0 (replicate 64 0xAB) world0
                  = Inr (pool0\<lparr>mMappedAddress := Some 4096\<rparr>, w')
         \<and> memory w' 4096 = 0xAB \<and> memory w' 4159 = 0xAB \<and> memory w' 4160 = 0
         \<and> calls w' = cs @ [vkFlushMappedMemoryRanges 1 7 0 VK_WHOLE_SIZE]
         \<and> filter is_flush cs = []
         \<and> flushed w' = [memory w'])
   \<and> (\<exists>w'. MemoryPool_Overwrite driver0 pool1 (replicate 64 0xAB) world0
                  = Inr (pool1\<lparr>mMappedAddress := Some 4096\<rparr>, w')
         \<and> filter is_flush (calls w') = [] \<and> flushed w' = [])"
proof -
  let ?bytes = "replicate 64 (0xAB :: 8 word)"
  let ?p0 = "pool0\<lparr>mMappedAddress := Some 4096\<rparr>"
  let ?p1 = "pool1\<lparr>mMappedAddress := Some 4096\<rparr>"
  have long: "MemoryPool_Overwrite driver0 pool0 (replicate 257 0) world0 = Inl AssertionFailure"
    using MemoryPool_Overwrite_copies_then_flushes
      [where this = pool0 and bytes = "replicate 257 0" and drv = driver0 and w = world0,
        THEN conjunct1]
    by (simp add: pool0_fields)
  have nc: "2 AND VK_MEMORY_PROPERTY_HOST_COHERENT_BIT = (0 :: 32 word)"
    and co: "6 AND VK_MEMORY_PROPERTY_HOST_COHERENT_BIT \<noteq> (0 :: 32 word)"
    by (simp_all add: VK_MEMORY_PROPERTY_HOST_COHERENT_BIT_def)
  have "\<exists>w'. MemoryPool_Overwrite driver0 pool0 ?bytes world0 = Inr (?p0, w')"
    using MemoryPool_Overwrite_copies_then_flushes
      [where this = pool0 and bytes = ?bytes and drv = driver0 and w = world0 and base = 4096
         and thism = ?p0 and props = 2 and dev = 1
         and wm = "world0\<lparr>calls := calls world0 @ [vkMapMemory 1 (mMemory pool0) 0 VK_WHOLE_SIZE 0]\<rparr>",
        THEN conjunct2, THEN conjunct2]
    by (simp add: pool0_fields world0_fields pool0_map pool0_props driver0_def)
  then obtain w0 where ov0: "MemoryPool_Overwrite driver0 pool0 ?bytes world0 = Inr (?p0, w0)"
    by blast
  note t0 = MemoryPool_Overwrite_copies_then_flushes
      [where this = pool0 and bytes = ?bytes and drv = driver0 and w = world0
         and this' = ?p0 and w' = w0, THEN conjunct2, THEN conjunct1, rule_format, OF ov0]
  from t0 have m0: "\<forall>i<64. memory w0 (ptr_add 4096 i) = ?bytes ! i"
    and u0: "\<forall>a. (\<forall>i<64. a \<noteq> ptr_add 4096 i) \<longrightarrow> memory w0 a = memory world0 a"
    by (auto simp: pool0_map)
  from t0 nc have c0: "\<exists>cs. calls w0 = cs @ [vkFlushMappedMemoryRanges 1 7 0 VK_WHOLE_SIZE]
               \<and> filter is_flush cs = []"
    and f0: "flushed w0 = [memory w0]"
    by (auto simp: pool0_props pool0_fields world0_fields)
  from m0 [rule_format, of 0] m0 [rule_format, of 63]
  have a0: "memory w0 4096 = 0xAB" "memory w0 4159 = 0xAB"
    by (simp_all add: ptr_add_def)
  have "\<forall>i<64. (4160 :: nat) \<noteq> ptr_add 4096 i"
    by (simp add: ptr_add_small)
  with u0 have b0: "memory w0 4160 = 0" by (simp add: world0_fields)
  have "\<exists>w'. MemoryPool_Overwrite driver0 pool1 ?bytes world0 = Inr (?p1, w')"
    using MemoryPool_Overwrite_copies_then_flushes
      [where this = pool1 and bytes = ?bytes and drv = driver0 and w = world0 and base = 4096
         and thism = ?p1 and props = 6
         and wm = "world0\<lparr>calls := calls world0 @ [vkMapMemory 1 (mMemory pool1) 0 VK_WHOLE_SIZE 0]\<rparr>",
        THEN conjunct2, THEN conjunct2] co
    by (simp add: pool1_fields world0_fields pool1_map pool1_props)
  then obtain w1 where ov1: "MemoryPool_Overwrite driver0 pool1 ?bytes world0 = Inr (?p1, w1)"
    by blast
  note t1 = MemoryPool_Overwrite_copies_then_flushes
      [where this = pool1 and bytes = ?bytes and drv = driver0 and w = world0
         and this' = ?p1 and w' = w1, THEN conjunct2, THEN conjunct1, rule_format, OF ov1]
  from t1 co have c1: "filter is_flush (calls w1) = []" and f1: "flushed w1 = []"
    by (auto simp: pool1_props world0_fields)
  from c0 obtain cs where cs: "calls w0 = cs @ [vkFlushMappedMemoryRanges 1 7 0 VK_WHOLE_SIZE]"
    "filter is_flush cs = []"
    by (elim exE conjE)
  have A: "\<exists>w' cs. MemoryPool_Overwrite driver0 pool0 ?bytes world0 = Inr (?p0, w')
         \<and> memory w' 4096 = 0xAB \<and> memory w' 4159 = 0xAB \<and> memory w' 4160 = 0
         \<and> calls w' = cs @ [vkFlushMappedMemoryRanges 1 7 0 VK_WHOLE_SIZE]
         \<and> filter is_flush cs = []
         \<and> flushed w' = [memory w']"
    by (rule exI [of _ w0], rule exI [of _ cs]) (intro conjI ov0 a0 b0 cs f0)
  have B: "\<exists>w'. MemoryPool_Overwrite driver0 pool1 ?bytes world0 = Inr (?p1, w')
         \<and> filter is_flush (calls w') = [] \<and> flushed w' = []"
    by (rule exI [of _ w1]) (intro conjI ov1 c1 f1)
  show ?thesis
    by (intro conjI long A B)
qed

theorem Allocation_Overwrite_bounds_witness:
  "Allocation_Overwrite driver0 allocation1 (replicate 17 0) world0 = Inl AssertionFailure
   \<and> (\<exists>w'. Allocation_Overwrite driver0 allocation1 (replicate 16 0xAB) world0 = Inr w'
         \<and> memory w' 4112 = 0xAB \<and> memory w' 4127 = 0xAB
         \<and> memory w' 4111 = 0 \<and> memory w' 4128 = 0)
   \<and> (\<exists>w'. Allocation_Overwrite driver0 allocation2 (replicate 16 0xAB) world0 = Inr w'
         \<and> memory w' 4095 = 0xAB \<and> memory w' 4110 = 0xAB
         \<and> memory w' 4094 = 0 \<and> memory w' 4111 = 0)"
proof -
  let ?bytes = "replicate 16 (0xAB :: 8 word)"
  let ?wm = "world0\<lparr>calls := calls world0 @ [vkMapMemory 1 (mMemory pool0) 0 VK_WHOLE_SIZE 0]\<rparr>"
  have long: "Allocation_Overwrite driver0 allocation1 (replicate 17 0) world0 = Inl AssertionFailure"
    using Allocation_Overwrite_bounds
      [where this = allocation1 and bytes = "replicate 17 0" and drv = driver0 and w = world0,
        THEN conjunct1]
    by (simp add: allocation1_fields)
  have pre: "length ?bytes \<le> Allocation_Size allocation1 \<and> mRawAllocation allocation1 = Some 4
        \<and> pools world0 4 = Some pool0
        \<and> MemoryPool_GetMappedAddress driver0 pool0 world0
            = Inr (4096, pool0\<lparr>mMappedAddress := Some 4096\<rparr>, ?wm)"
    by (simp add: allocation1_fields world0_fields pool0_map)
  from Allocation_Overwrite_bounds
      [where this = allocation1 and bytes = ?bytes and drv = driver0 and w = world0
         and p = 4 and pool = pool0 and base = 4096
         and pool' = "pool0\<lparr>mMappedAddress := Some 4096\<rparr>" and wm = ?wm,
        THEN conjunct2, THEN conjunct1, rule_format, OF pre]
  obtain w' where ov: "Allocation_Overwrite driver0 allocation1 ?bytes world0 = Inr w'"
    and m: "length ?bytes \<le> 2 ^ 64 \<longrightarrow>
              (\<forall>i<length ?bytes. memory w' (ptr_add (ptr_add 4096 (Offset allocation1)) i) = ?bytes ! i)"
    and u: "\<forall>a. (\<forall>i<length ?bytes. a \<noteq> ptr_add (ptr_add 4096 (Offset allocation1)) i)
              \<longrightarrow> memory w' a = memory world0 a"
    by (elim exE conjE)
  have d: "ptr_add 4096 (Offset allocation1) = 4112"
    by (simp add: allocation1_fields ptr_add_def)
  from m d have m': "\<forall>i<16. memory w' (ptr_add 4112 i) = ?bytes ! i" by simp
  from m' [rule_format, of 0] m' [rule_format, of 15]
  have a: "memory w' 4112 = 0xAB" "memory w' 4127 = 0xAB"
    by (simp_all add: ptr_add_def)
  have "\<forall>i<16. (4111 :: nat) \<noteq> ptr_add 4112 i" "\<forall>i<16. (4128 :: nat) \<noteq> ptr_add 4112 i"
    by (simp_all add: ptr_add_small)
  with u d have b: "memory w' 4111 = 0" "memory w' 4128 = 0"
    by (simp_all add: world0_fields)
  have A: "\<exists>w'. Allocation_Overwrite driver0 allocation1 ?bytes world0 = Inr w'
         \<and> memory w' 4112 = 0xAB \<and> memory w' 4127 = 0xAB
         \<and> memory w' 4111 = 0 \<and> memory w' 4128 = 0"
    by (rule exI [of _ w']) (intro conjI ov a b)
  have pre2: "length ?bytes \<le> Allocation_Size allocation2 \<and> mRawAllocation allocation2 = Some 4
        \<and> pools world0 4 = Some pool0
        \<and> MemoryPool_GetMappedAddress driver0 pool0 world0
            = Inr (4096, pool0\<lparr>mMappedAddress := Some 4096\<rparr>, ?wm)"
    by (simp add: allocation2_fields world0_fields pool0_map)
  from Allocation_Overwrite_bounds
      [where this = allocation2 and bytes = ?bytes and drv = driver0 and w = world0
         and p = 4 and pool = pool0 and base = 4096
         and pool' = "pool0\<lparr>mMappedAddress := Some 4096\<rparr>" and wm = ?wm,
        THEN conjunct2, THEN conjunct1, rule_format, OF pre2]
  obtain w2 where ov2: "Allocation_Overwrite driver0 allocation2 ?bytes world0 = Inr w2"
    and m2: "length ?bytes \<le> 2 ^ 64 \<longrightarrow>
              (\<forall>i<length ?bytes. memory w2 (ptr_add (ptr_add 4096 (Offset allocation2)) i) = ?bytes ! i)"
    and u2: "\<forall>a. (\<forall>i<length ?bytes. a \<noteq> ptr_add (ptr_add 4096 (Offset allocation2)) i)
              \<longrightarrow> memory w2 a = memory world0 a"
    by (elim exE conjE)
  have d2: "ptr_add 4096 (Offset allocation2) = 4095"
    by (simp add: allocation2_fields ptr_add_def)
  from m2 d2 have m2': "\<forall>i<16. memory w2 (ptr_add 4095 i) = ?bytes ! i" by simp
  from m2' [rule_format, of 0] m2' [rule_format, of 15]
  have a2: "memory w2 4095 = 0xAB" "memory w2 4110 = 0xAB"
    by (simp_all add: ptr_add_def)
  have "\<forall>i<16. (4094 :: nat) \<noteq> ptr_add 4095 i" "\<forall>i<16. (4111 :: nat) \<noteq> ptr_add 4095 i"
    by (simp_all add: ptr_add_small)
  with u2 d2 have b2: "memory w2 4094 = 0" "memory w2 4111 = 0"
    by (simp_all add: world0_fields)
  have B: "\<exists>w'. Allocation_Overwrite driver0 allocation2 ?bytes world0 = Inr w'
         \<and> memory w' 4095 = 0xAB \<and> memory w' 4110 = 0xAB
         \<and> memory w' 4094 = 0 \<and> memory w' 4111 = 0"
    by (rule exI [of _ w2]) (intro conjI ov2 a2 b2)
  show ?thesis
    by (intro conjI long A B)
qed

theorem MemoryPool_GetMappedAddress_idempotent_witness:
  "MemoryPool_GetMappedAddress driver0 pool0 world0 =
     Inr (4096, pool0\<lparr>mMappedAddress := Some 4096\<rparr>,
          world0\<lparr>calls := calls world0 @ [vkMapMemory 1 (mMemory pool0) 0 VK_WHOLE_SIZE 0]\<rparr>)
   \<and> MemoryPool_GetMappedAddress driver0 (pool0\<lparr>mMappedAddress := Some 4096\<rparr>)
         (world0\<lparr>calls := calls world0 @ [vkMapMemory 1 (mMemory pool0) 0 VK_WHOLE_SIZE 0]\<rparr>) =
     Inr (4096, pool0\<lparr>mMappedAddress := Some 4096\<rparr>,
          world0\<lparr>calls := calls world0 @ [vkMapMemory 1 (mMemory pool0) 0 VK_WHOLE_SIZE 0]\<rparr>)
   \<and> MemoryPool_GetMappedAddress (driver_failing (- 3)) (pool0\<lparr>mMappedAddress := Some 4096\<rparr>)
         world0 =
     Inr (4096, pool0\<lparr>mMappedAddress := Some 4096\<rparr>, world0)
   \<and> length (filter is_map
         (calls (world0\<lparr>calls := calls world0 @ [vkMapMemory 1 (mMemory pool0) 0 VK_WHOLE_SIZE 0]\<rparr>)))
       = 1
   \<and> MemoryPool_GetMappedAddress driver0 pool2 world0 = Inl AssertionFailure"
proof -
  let ?p = "pool0\<lparr>mMappedAddress := Some 4096\<rparr>"
  let ?w = "world0\<lparr>calls := calls world0 @ [vkMapMemory 1 (mMemory pool0) 0 VK_WHOLE_SIZE 0]\<rparr>"
  note T = MemoryPool_GetMappedAddress_idempotent
      [where this = pool0 and w = world0 and props = 2 and drv = driver0 and dev = 1
         and a = 4096 and b = 4096 and this' = ?p and w' = ?w]
  have pre: "mMappedAddress pool0 = None \<and> MemoryPool_Properties pool0 world0 = Inr 2
      \<and> 2 AND VK_MEMORY_PROPERTY_HOST_VISIBLE_BIT \<noteq> 0
      \<and> MemoryPool.mDevice pool0 = Some 1 \<and> 1 \<in> devices world0
      \<and> driver0 (calls world0) (vkMapMemory 1 (mMemory pool0) 0 VK_WHOLE_SIZE 0) = (VK_SUCCESS, 4096)"
    by (simp add: pool0_fields world0_fields pool0_props driver0_def
        VK_MEMORY_PROPERTY_HOST_VISIBLE_BIT_def)
  note first = T [THEN conjunct2, THEN conjunct1, rule_format, OF pre]
  note rest = T [THEN conjunct2, THEN conjunct2, rule_format, OF first]
  from rest have second: "MemoryPool_GetMappedAddress driver0 ?p ?w = Inr (4096, ?p, ?w)"
    by (elim conjE)
  from rest have "\<forall>drv' w2. MemoryPool_GetMappedAddress drv' ?p w2 = Inr (4096, ?p, w2)"
    by (elim conjE)
  then have third: "MemoryPool_GetMappedAddress (driver_failing (- 3)) ?p world0
                    = Inr (4096, ?p, world0)"
    by (elim allE)
  from rest have "length (filter is_map (calls ?w)) =
      length (filter is_map (calls world0)) + (if mMappedAddress pool0 = None then 1 else 0)"
    by (elim conjE)
  then have fourth: "length (filter is_map (calls ?w)) = 1"
    by (simp add: pool0_fields world0_fields)
  have pre2: "mMappedAddress pool2 = None \<and> MemoryPool_Properties pool2 world0 = Inr 1
      \<and> 1 AND VK_MEMORY_PROPERTY_HOST_VISIBLE_BIT = 0"
    by (simp add: pool2_props VK_MEMORY_PROPERTY_HOST_VISIBLE_BIT_def)
      (simp add: pool2_def MemoryPool_ctor_def)
  note fifth = MemoryPool_GetMappedAddress_idempotent
      [where this = pool2 and w = world0 and props = 1 and drv = driver0,
        THEN conjunct1, rule_format, OF pre2]
  show ?thesis
    by (intro conjI first second third fourth fifth)
qed

subsection \<open>Moves and destruction of allocations\<close>

lemma held_Nil: "held w [] = {#}"
  by (simp add: held_def)

lemma held_Cons: "held w (obj # objs) = holding w obj + held w objs"
  by (simp add: held_def)

lemma held_append: "held w (xs @ ys) = held w xs + held w ys"
  by (simp add: held_def)

lemma held_update:
  "i < length objs \<Longrightarrow> held w (objs[i := y]) + holding w (objs ! i) = held w objs + holding w y"
proof (induction objs arbitrary: i)
  case Nil
  then show ?case by simp
next
  case (Cons x xs)
  show ?case
  proof (cases i)
    case 0
    then show ?thesis by (simp add: held_Cons)
  next
    case (Suc j)
    with Cons.prems have "j < length xs" by simp
    from Cons.IH [OF this] Suc show ?thesis
      by (simp add: held_Cons add.assoc)
  qed
qed

lemma well_formed_append:
  "well_formed w (xs @ ys) = (well_formed w xs \<and> well_formed w ys)"
  by (simp add: well_formed_def)

lemma well_formed_update:
  "well_formed w objs \<Longrightarrow> (case y of None \<Rightarrow> True | Some a \<Rightarrow> destructible w a)
   \<Longrightarrow> well_formed w (objs[i := y])"
  unfolding well_formed_def list_all_iff
  by (auto dest!: set_update_subset_insert [THEN subsetD])

lemma well_formed_nth:
  "well_formed w objs \<Longrightarrow> object objs i = Inr a \<Longrightarrow> destructible w a"
  unfolding well_formed_def list_all_iff object_def
  by (auto split: if_splits option.splits simp: in_set_conv_nth)

lemma object_nth: "object objs i = Inr a \<Longrightarrow> i < length objs \<and> objs ! i = Some a"
  by (auto simp: object_def split: if_splits option.splits)

lemma object_fault: "object objs i = Inl f \<Longrightarrow> f = OutOfLifetime"
  by (auto simp: object_def split: if_splits option.splits)

lemma Allocation_move_new:
  "has_Allocator w (fst (Allocation_move other)) = has_Allocator w other"
  "has_RawAllocation w (fst (Allocation_move other)) = has_RawAllocation w other"
  "claim_of (fst (Allocation_move other)) = claim_of other"
  by (simp_all add: Allocation_move_def ReflexivePointer_move_def has_Allocator_def
      has_RawAllocation_def claim_of_def)

lemma Allocation_move_source:
  "\<not> has_Allocator w (snd (Allocation_move other))"
  "\<not> has_RawAllocation w (snd (Allocation_move other))"
  by (simp_all add: Allocation_move_def ReflexivePointer_move_def has_Allocator_def
      has_RawAllocation_def ReflexivePointer_bool_def)

lemma holding_move:
  "holding w (Some (fst (Allocation_move other))) = holding w (Some other)"
  "holding w (Some (snd (Allocation_move other))) = {#}"
  by (simp_all add: holding_def Allocation_move_new Allocation_move_source)

lemma destructible_move:
  "destructible w other \<Longrightarrow> destructible w (fst (Allocation_move other))"
  "destructible w (snd (Allocation_move other))"
  by (simp_all add: destructible_def Allocation_move_new Allocation_move_source)

lemma Allocation_dtor_value:
  "destructible w this \<Longrightarrow>
   Allocation_dtor this w =
     Inr (if has_Allocator w this then w\<lparr>released := released w @ [this]\<rparr> else w)"
  by (auto simp: Allocation_dtor_def destructible_def AssertImplication_def Assert_def
      has_Allocator_def ReflexivePointer_bool_def ReflexivePointer_deref_def Allocator_Free_def
      split: option.splits)

lemma Allocation_dtor_moved_from:
  "Allocation_dtor (snd (Allocation_move other)) w = Inr w"
  by (simp add: Allocation_dtor_value destructible_move Allocation_move_source)

text \<open>What a world says about liveness does not depend on the allocations released.\<close>

lemma released_update_has:
  "has_Allocator (w\<lparr>released := r\<rparr>) = has_Allocator w"
  "has_RawAllocation (w\<lparr>released := r\<rparr>) = has_RawAllocation w"
  by (simp_all add: fun_eq_iff has_Allocator_def has_RawAllocation_def)

lemma released_update_both: "destructible (w\<lparr>released := r\<rparr>) = destructible w"
  by (simp add: fun_eq_iff destructible_def released_update_has)

lemma released_update_holding: "holding (w\<lparr>released := r\<rparr>) = holding w"
  by (simp add: fun_eq_iff holding_def released_update_has split: option.splits)

lemma released_update_held: "held (w\<lparr>released := r\<rparr>) = held w"
  by (simp add: fun_eq_iff held_def released_update_holding)

lemma released_update_well_formed: "well_formed (w\<lparr>released := r\<rparr>) = well_formed w"
  by (simp add: fun_eq_iff well_formed_def released_update_both cong: option.case_cong)

lemmas released_update_refs = released_update_has released_update_both released_update_holding
  released_update_held released_update_well_formed

lemma after_dtor_refs:
  "has_Allocator (after_dtor this w) = has_Allocator w"
  "destructible (after_dtor this w) = destructible w"
  "holding (after_dtor this w) = holding w"
  "held (after_dtor this w) = held w"
  "well_formed (after_dtor this w) = well_formed w"
  by (simp_all add: after_dtor_def released_update_refs)

lemma after_dtor_released:
  "released_claims (after_dtor this w) = released_claims w + holding w (Some this)"
  "\<exists>rs. released (after_dtor this w) = released w @ rs"
  by (simp_all add: after_dtor_def released_claims_def holding_def)

lemma step_DefaultConstruct:
  "step DefaultConstruct (w, objs) = Inr (w, objs @ [Some Allocation_default])"
  by simp

lemma step_MoveConstruct:
  "object objs src = Inr other \<Longrightarrow>
   step (MoveConstruct src) (w, objs) =
     Inr (w, objs[src := Some (snd (Allocation_move other))] @ [Some (fst (Allocation_move other))])"
  by (simp add: case_prod_unfold)

lemma step_MoveAssign_self:
  "object objs dst = Inr this \<Longrightarrow> step (MoveAssign dst dst) (w, objs) = Inr (w, objs)"
  by simp

lemma step_MoveAssign:
  "object objs dst = Inr this \<Longrightarrow> object objs src = Inr other \<Longrightarrow> dst \<noteq> src
   \<Longrightarrow> destructible w this \<Longrightarrow>
   step (MoveAssign dst src) (w, objs) =
     Inr (after_dtor this w,
          objs[dst := Some (fst (Allocation_move other)), src := Some (snd (Allocation_move other))])"
  by (simp add: Allocation_move_assign_def Allocation_dtor_value after_dtor_def case_prod_unfold)

lemma step_Destroy:
  "object objs i = Inr this \<Longrightarrow> destructible w this \<Longrightarrow>
   step (Destroy i) (w, objs) = Inr (after_dtor this w, objs[i := None])"
  by (simp add: Allocation_dtor_value after_dtor_def)

lemma holding_default: "holding w (Some Allocation_default) = {#}"
  by (simp add: holding_def has_Allocator_def ReflexivePointer_bool_def Allocation_default_def)

lemma destructible_default: "destructible w Allocation_default"
  by (simp add: destructible_def has_Allocator_def has_RawAllocation_def
      ReflexivePointer_bool_def Allocation_default_def)

lemma step_conserved:
  assumes wf: "well_formed w objs"
  shows "case step c (w, objs) of
           Inl f \<Rightarrow> f = OutOfLifetime
         | Inr s' \<Rightarrow> conserved (w, objs) s'"
proof (cases c)
  case DefaultConstruct
  with wf show ?thesis
    by (simp add: conserved_def well_formed_append held_append holding_default held_Nil held_Cons)
      (simp add: well_formed_def destructible_default)
next
  case (MoveConstruct src)
  show ?thesis
  proof (cases "object objs src")
    case (Inl f)
    with MoveConstruct show ?thesis by (simp add: object_fault)
  next
    case (Inr other)
    note n = object_nth [OF Inr]
    note b = well_formed_nth [OF wf Inr]
    let ?new = "fst (Allocation_move other)" and ?old = "snd (Allocation_move other)"
    have "well_formed w (objs[src := Some ?old] @ [Some ?new])"
      using wf b
      by (simp add: well_formed_append well_formed_update destructible_move)
        (simp add: well_formed_def destructible_move)
    moreover from held_update [of src objs w "Some ?old"] n
    have "held w (objs[src := Some ?old]) + holding w (Some other) = held w objs"
      by (simp add: holding_move)
    then have "held w (objs[src := Some ?old] @ [Some ?new]) = held w objs"
      by (simp add: held_append held_Cons held_Nil holding_move)
    ultimately have "conserved (w, objs) (w, objs[src := Some ?old] @ [Some ?new])"
      by (simp add: conserved_def)
    moreover have "step c (w, objs) = Inr (w, objs[src := Some ?old] @ [Some ?new])"
      using MoveConstruct Inr by (simp add: step_MoveConstruct del: step.simps)
    ultimately show ?thesis by simp
  qed
next
  case (MoveAssign dst src)
  show ?thesis
  proof (cases "object objs dst")
    case (Inl f)
    with MoveAssign show ?thesis by (simp add: object_fault)
  next
    case od: (Inr this)
    show ?thesis
    proof (cases "object objs src")
      case (Inl f)
      with MoveAssign od show ?thesis by (simp add: object_fault)
    next
      case os: (Inr other)
      show ?thesis
      proof (cases "dst = src")
        case True
        with MoveAssign od os wf show ?thesis
          by (simp add: conserved_def)
      next
        case False
        note nd = object_nth [OF od] and ns = object_nth [OF os]
        note bd = well_formed_nth [OF wf od] and bs = well_formed_nth [OF wf os]
        let ?new = "fst (Allocation_move other)" and ?old = "snd (Allocation_move other)"
        let ?objs = "objs[dst := Some ?new, src := Some ?old]"
        have wf': "well_formed w ?objs"
          using wf bs by (simp add: well_formed_update destructible_move)
        from held_update [of dst objs w "Some ?new"] nd
        have 1: "held w (objs[dst := Some ?new]) + holding w (Some this)
                 = held w objs + holding w (Some other)"
          by (simp add: holding_move)
        from held_update [of src "objs[dst := Some ?new]" w "Some ?old"] ns False
        have 2: "held w ?objs + holding w (Some other) = held w (objs[dst := Some ?new])"
          by (simp add: holding_move)
        from 1 2 have "held w ?objs + holding w (Some this) + holding w (Some other)
                       = held w objs + holding w (Some other)"
          by (metis add.assoc add.commute)
        then have 3: "held w ?objs + holding w (Some this) = held w objs"
          by simp
        have "step c (w, objs) = Inr (after_dtor this w, ?objs)"
          using MoveAssign od os False bd by (simp add: step_MoveAssign del: step.simps)
        moreover have "conserved (w, objs) (after_dtor this w, ?objs)"
          using wf' 3
          by (simp add: conserved_def after_dtor_refs after_dtor_released ac_simps)
        ultimately show ?thesis by simp
      qed
    qed
  qed
next
  case (Destroy i)
  show ?thesis
  proof (cases "object objs i")
    case (Inl f)
    with Destroy show ?thesis by (simp add: object_fault)
  next
    case (Inr this)
    note n = object_nth [OF Inr]
    note b = well_formed_nth [OF wf Inr]
    have wf': "well_formed w (objs[i := None])"
      using wf by (simp add: well_formed_update)
    from held_update [of i objs w None] n
    have 1: "held w (objs[i := None]) + holding w (Some this) = held w objs"
      by (simp add: holding_def)
    have "step c (w, objs) = Inr (after_dtor this w, objs[i := None])"
      using Destroy Inr b by (simp add: step_Destroy del: step.simps)
    moreover have "conserved (w, objs) (after_dtor this w, objs[i := None])"
      using wf' 1
      by (simp add: conserved_def after_dtor_refs after_dtor_released ac_simps)
    ultimately show ?thesis by simp
  qed
qed

lemma conserved_refl: "well_formed (fst s) (snd s) \<Longrightarrow> conserved s s"
  by (simp add: conserved_def)

lemma conserved_trans: "conserved s s' \<Longrightarrow> conserved s' s'' \<Longrightarrow> conserved s s''"
  by (auto simp: conserved_def)

lemma run_conserved:
  "well_formed (fst s) (snd s) \<Longrightarrow>
   (case run ops s of Inl f \<Rightarrow> f = OutOfLifetime | Inr s' \<Rightarrow> conserved s s')"
proof (induction ops arbitrary: s)
  case Nil
  then show ?case by (simp add: conserved_refl)
next
  case (Cons c ops)
  obtain w objs where s: "s = (w, objs)" by (cases s)
  with Cons.prems have wf: "well_formed w objs" by simp
  show ?case
  proof (cases "step c (w, objs)")
    case (Inl f)
    with step_conserved [OF wf, of c] s show ?thesis by simp
  next
    case (Inr s')
    with step_conserved [OF wf, of c] have c1: "conserved s s'" by (simp add: s)
    then have "well_formed (fst s') (snd s')" by (simp add: conserved_def)
    from Cons.IH [OF this] c1 Inr s show ?thesis
      by (auto split: sum.splits intro: conserved_trans)
  qed
qed

lemma run_append:
  "run (xs @ ys) s = (case run xs s of Inl f \<Rightarrow> Inl f | Inr s' \<Rightarrow> run ys s')"
  by (induction xs arbitrary: s) (simp_all split: sum.splits)

lemma destroys_Suc: "destroys (Suc n) = destroys n @ [Destroy n]"
  by (simp add: destroys_def)

lemma moved_from_source: "moved_from (Some (snd (Allocation_move other)))"
  by (simp add: moved_from_def Allocation_move_def ReflexivePointer_move_def)

lemma moved_from_refs:
  "moved_from (Some x) \<Longrightarrow> \<not> has_Allocator w x \<and> destructible w x"
  by (simp add: moved_from_def has_Allocator_def has_RawAllocation_def destructible_def
      ReflexivePointer_bool_def)

lemma after_dtor_default: "after_dtor Allocation_default w = w"
  by (simp add: after_dtor_def has_Allocator_def ReflexivePointer_bool_def Allocation_default_def)

text \<open>One move, by either kind, from the latest object into a new one.\<close>

lemma run_move_ops:
  assumes l: "length olds = k"
  shows "run (move_ops k m) (w, olds @ [Some h]) =
           Inr (w, (olds @ [Some (snd (Allocation_move h))]) @ [Some (fst (Allocation_move h))])"
proof (cases m)
  case MoveConstructor
  let ?new = "fst (Allocation_move h)" and ?old = "snd (Allocation_move h)"
  from l have "object (olds @ [Some h]) k = Inr h"
    by (simp add: object_def nth_append)
  then have "step (MoveConstruct k) (w, olds @ [Some h])
             = Inr (w, (olds @ [Some h])[k := Some ?old] @ [Some ?new])"
    by (rule step_MoveConstruct)
  moreover have "(olds @ [Some h])[k := Some ?old] = olds @ [Some ?old]"
    unfolding l [symmetric] by simp
  ultimately have "step (MoveConstruct k) (w, olds @ [Some h])
             = Inr (w, (olds @ [Some ?old]) @ [Some ?new])"
    by (simp del: step.simps)
  with MoveConstructor show ?thesis
    by (simp del: step.simps)
next
  case MoveAssignment
  let ?new = "fst (Allocation_move h)" and ?old = "snd (Allocation_move h)"
  let ?objs = "(olds @ [Some h]) @ [Some Allocation_default]"
  from l have d: "object ?objs (Suc k) = Inr Allocation_default"
    and s: "object ?objs k = Inr h"
    by (simp_all add: object_def nth_append)
  from step_MoveAssign [OF d s _ destructible_default, of w]
  have "step (MoveAssign (Suc k) k) (w, ?objs) = Inr (w, ?objs[Suc k := Some ?new, k := Some ?old])"
    by (simp add: after_dtor_default del: step.simps)
  moreover have "?objs[Suc k := Some ?new, k := Some ?old] = (olds @ [Some ?old]) @ [Some ?new]"
    unfolding l [symmetric] by (simp add: list_update_append)
  ultimately have "step (MoveAssign (Suc k) k) (w, ?objs)
                   = Inr (w, (olds @ [Some ?old]) @ [Some ?new])"
    by (simp del: step.simps)
  with MoveAssignment show ?thesis
    by (simp del: step.simps(2-4) append_assoc)
qed

lemma run_moves_from:
  "length olds = k \<Longrightarrow> list_all moved_from olds \<Longrightarrow>
   \<exists>olds' h'. run (moves_from k kinds) (w, olds @ [Some h]) = Inr (w, olds' @ [Some h'])
     \<and> length olds' = k + length kinds \<and> list_all moved_from olds' \<and> claim_of h' = claim_of h"
proof (induction kinds arbitrary: k olds h)
  case Nil
  then show ?case by simp
next
  case (Cons m kinds)
  let ?new = "fst (Allocation_move h)" and ?old = "snd (Allocation_move h)"
  from Cons.prems have l: "length (olds @ [Some ?old]) = Suc k"
    and mf: "list_all moved_from (olds @ [Some ?old])"
    by (simp_all add: moved_from_source)
  from Cons.IH [OF l mf, of ?new] obtain olds' h' where
    r: "run (moves_from (Suc k) kinds) (w, (olds @ [Some ?old]) @ [Some ?new])
        = Inr (w, olds' @ [Some h'])"
    and l': "length olds' = Suc k + length kinds" and mf': "list_all moved_from olds'"
    and c: "claim_of h' = claim_of ?new"
    by blast
  from run_move_ops [OF Cons.prems(1), of m w h] r
  have "run (moves_from k (m # kinds)) (w, olds @ [Some h]) = Inr (w, olds' @ [Some h'])"
    by (simp add: run_append del: append_assoc)
  with l' mf' c show ?case
    by (auto simp: Allocation_move_new)
qed

lemma run_moves:
  "\<exists>olds h. run (moves kinds) (w, [Some a]) = Inr (w, olds @ [Some h])
     \<and> length olds = length kinds \<and> list_all moved_from olds \<and> claim_of h = claim_of a"
  using run_moves_from [of "[]" 0 kinds w a] by (simp add: moves_def)

lemma run_destroys_moved_from:
  "k \<le> length olds \<Longrightarrow> list_all moved_from olds \<Longrightarrow>
   run (destroys k) (w, olds @ rest) = Inr (w, replicate k None @ drop k olds @ rest)"
proof (induction k)
  case 0
  show ?case by (simp add: destroys_def)
next
  case (Suc k)
  then have k: "k < length olds" by simp
  with Suc.prems have "moved_from (olds ! k)"
    by (simp add: list_all_length)
  then obtain x where x: "olds ! k = Some x" and mf: "moved_from (Some x)"
    by (cases "olds ! k") (simp_all add: moved_from_def)
  let ?objs = "replicate k None @ drop k olds @ rest"
  from k x have o: "object ?objs k = Inr x"
    by (simp add: object_def nth_append)
  from moved_from_refs [OF mf, of w] have "after_dtor x w = w"
    by (simp add: after_dtor_def)
  with step_Destroy [OF o, of w] moved_from_refs [OF mf, of w]
  have "step (Destroy k) (w, ?objs) = Inr (w, ?objs[k := None])"
    by simp
  moreover from k have "?objs[k := None] = replicate (Suc k) None @ drop (Suc k) olds @ rest"
    by (simp add: list_update_append replicate_append_same Cons_nth_drop_Suc [symmetric])
  ultimately have "step (Destroy k) (w, ?objs)
                   = Inr (w, replicate (Suc k) None @ drop (Suc k) olds @ rest)"
    by simp
  with Suc.IH k Suc.prems show ?case
    by (simp add: destroys_Suc run_append del: step.simps replicate_Suc)
qed

lemma refs_by_claim:
  "claim_of h = claim_of a \<Longrightarrow>
   has_Allocator w h = has_Allocator w a \<and> has_RawAllocation w h = has_RawAllocation w a"
  by (simp add: claim_of_def has_Allocator_def has_RawAllocation_def)

lemma held_all_destroyed: "all_destroyed objs \<Longrightarrow> held w objs = {#}"
  by (induction objs) (simp_all add: all_destroyed_def held_Nil held_Cons holding_def)

lemma mset_map_single:
  "mset (map f rs) = {#c#} \<Longrightarrow> \<exists>r. rs = [r] \<and> f r = c"
  by (cases rs) auto

subsection \<open>Single release\<close>

text \<open>
  Claim C6. Take an allocation \<open>a\<close> whose allocator reference is live, as the only
  object of a client. However often and however it is moved, the release callback
  \<^verbatim>\<open>Allocator::Free\<close> fires exactly once, from the destructor of the final holder:
  \<^item> after any sequence of moves, each by the move constructor or by move assignment,
    and the destruction of all the moved-from objects, the world is unchanged, so no
    callback has fired, and the last object holds the claim of \<open>a\<close>;
  \<^item> destroying that final holder as well records exactly one callback, with the claim
    of \<open>a\<close>;
  \<^item> for every client program over the objects (default constructions, move
    constructions, move assignments between any two objects and destructions in any
    order) that returns with all objects destroyed, exactly one callback was recorded,
    with the claim of \<open>a\<close>, and no such program fails an assertion of the code;
  \<^item> the move constructor gives the new object the claim of its source and leaves the
    source moved-from; move assignment between two different objects runs the destructor
    of the target, which releases the claim the target held before if it held one, and
    then does the same as the move constructor, so that afterwards the target holds the
    claim of the source and the source is moved-from; move assignment of an object to
    itself changes nothing;
  \<^item> the destructor of a moved-from allocation returns without a callback in every
    world, and the destructor of \<open>a\<close> itself records the callback with \<open>a\<close>.
\<close>

theorem Allocation_released_exactly_once:
  assumes bound: "has_Allocator w a"
  shows "(\<exists>h. run (moves kinds @ destroys (length kinds)) (w, [Some a])
                 = Inr (w, replicate (length kinds) None @ [Some h])
             \<and> claim_of h = claim_of a)
       \<and> (\<exists>r. run (moves kinds @ destroys (Suc (length kinds))) (w, [Some a])
                 = Inr (w\<lparr>released := released w @ [r]\<rparr>, replicate (Suc (length kinds)) None)
             \<and> claim_of r = claim_of a)
       \<and> (\<forall>w' objs'. run ops (w, [Some a]) = Inr (w', objs') \<and> all_destroyed objs'
             \<longrightarrow> (\<exists>r. released w' = released w @ [r] \<and> claim_of r = claim_of a))
       \<and> run ops (w, [Some a]) \<noteq> Inl AssertionFailure
       \<and> claim_of (fst (Allocation_move other)) = claim_of other
       \<and> moved_from (Some (snd (Allocation_move other)))
       \<and> (\<forall>this. destructible w this \<longrightarrow>
             Allocation_move_assign this other w =
               Inr (fst (Allocation_move other), snd (Allocation_move other),
                    if has_Allocator w this then w\<lparr>released := released w @ [this]\<rparr> else w))
       \<and> (\<forall>objs dst src this.
             object objs dst = Inr this \<and> object objs src = Inr other \<and> dst \<noteq> src
             \<and> destructible w this \<longrightarrow>
             step (MoveAssign dst src) (w, objs) =
               Inr (if has_Allocator w this then w\<lparr>released := released w @ [this]\<rparr> else w,
                    objs[dst := Some (fst (Allocation_move other)),
                         src := Some (snd (Allocation_move other))]))
       \<and> (\<forall>objs dst. object objs dst = Inr other \<longrightarrow>
             step (MoveAssign dst dst) (w, objs) = Inr (w, objs))
       \<and> Allocation_dtor (snd (Allocation_move other)) w = Inr w
       \<and> Allocation_dtor a w = Inr (w\<lparr>released := released w @ [a]\<rparr>)"
proof (intro conjI allI impI)
  let ?n = "length kinds"
  from run_moves [of kinds w a] obtain olds h where
    r: "run (moves kinds) (w, [Some a]) = Inr (w, olds @ [Some h])"
    and l: "length olds = ?n" and m: "list_all moved_from olds" and c: "claim_of h = claim_of a"
    by blast
  from run_destroys_moved_from [of ?n olds w "[Some h]"] l m
  have d: "run (destroys ?n) (w, olds @ [Some h]) = Inr (w, replicate ?n None @ [Some h])"
    by simp
  from r d have 1: "run (moves kinds @ destroys ?n) (w, [Some a])
                    = Inr (w, replicate ?n None @ [Some h])"
    by (simp add: run_append)
  with c show "\<exists>h. run (moves kinds @ destroys ?n) (w, [Some a])
                 = Inr (w, replicate ?n None @ [Some h])
             \<and> claim_of h = claim_of a"
    by blast
  from refs_by_claim [OF c, of w] bound have bh: "has_Allocator w h" "destructible w h"
    by (simp_all add: destructible_def)
  have "object (replicate ?n None @ [Some h]) ?n = Inr h"
    by (simp add: object_def nth_append)
  from step_Destroy [OF this bh(2)] bh(1)
  have "step (Destroy ?n) (w, replicate ?n None @ [Some h])
        = Inr (w\<lparr>released := released w @ [h]\<rparr>, (replicate ?n None @ [Some h])[?n := None])"
    by (simp add: after_dtor_def)
  moreover have "(replicate ?n None @ [Some h])[?n := None]
                 = replicate (Suc ?n) (None :: Allocation option)"
    by (simp add: list_update_append replicate_append_same)
  ultimately have "step (Destroy ?n) (w, replicate ?n None @ [Some h])
        = Inr (w\<lparr>released := released w @ [h]\<rparr>, replicate (Suc ?n) None)"
    by simp
  with 1 have "run (moves kinds @ destroys (Suc ?n)) (w, [Some a])
        = Inr (w\<lparr>released := released w @ [h]\<rparr>, replicate (Suc ?n) None)"
    by (simp add: destroys_Suc run_append append_assoc [symmetric]
        del: step.simps append_assoc replicate_Suc)
  with c show "\<exists>r. run (moves kinds @ destroys (Suc ?n)) (w, [Some a])
                 = Inr (w\<lparr>released := released w @ [r]\<rparr>, replicate (Suc ?n) None)
             \<and> claim_of r = claim_of a"
    by blast
next
  have wf: "well_formed (fst (w, [Some a])) (snd (w, [Some a]))"
    using bound by (simp add: well_formed_def destructible_def)
  note rc = run_conserved [OF wf, of ops]
  from rc show "run ops (w, [Some a]) \<noteq> Inl AssertionFailure"
    by (auto split: sum.splits)
  fix w' objs'
  assume a: "run ops (w, [Some a]) = Inr (w', objs') \<and> all_destroyed objs'"
  with rc have cons: "conserved (w, [Some a]) (w', objs')" by simp
  then obtain rs where rs: "released w' = released w @ rs"
    by (auto simp: conserved_def)
  from cons a bound have "released_claims w' = released_claims w + {#claim_of a#}"
    by (simp add: conserved_def held_all_destroyed held_Cons held_Nil holding_def)
  with rs have "mset (map claim_of rs) = {#claim_of a#}"
    by (simp add: released_claims_def)
  from mset_map_single [OF this] rs
  show "\<exists>r. released w' = released w @ [r] \<and> claim_of r = claim_of a"
    by auto
next
  show "claim_of (fst (Allocation_move other)) = claim_of other"
    by (simp add: Allocation_move_new)
  show "moved_from (Some (snd (Allocation_move other)))"
    by (rule moved_from_source)
  show "Allocation_dtor (snd (Allocation_move other)) w = Inr w"
    by (rule Allocation_dtor_moved_from)
  from bound show "Allocation_dtor a w = Inr (w\<lparr>released := released w @ [a]\<rparr>)"
    by (simp add: Allocation_dtor_value destructible_def)
next
  fix this
  assume "destructible w this"
  then show "Allocation_move_assign this other w =
               Inr (fst (Allocation_move other), snd (Allocation_move other),
                    if has_Allocator w this then w\<lparr>released := released w @ [this]\<rparr> else w)"
    by (simp add: Allocation_move_assign_def Allocation_dtor_value case_prod_unfold)
next
  fix objs dst src this
  assume "object objs dst = Inr this \<and> object objs src = Inr other \<and> dst \<noteq> src
             \<and> destructible w this"
  then show "step (MoveAssign dst src) (w, objs) =
               Inr (if has_Allocator w this then w\<lparr>released := released w @ [this]\<rparr> else w,
                    objs[dst := Some (fst (Allocation_move other)),
                         src := Some (snd (Allocation_move other))])"
    using step_MoveAssign [of objs dst this src other w]
    by (simp add: after_dtor_def del: step.simps)
next
  fix objs dst
  assume "object objs dst = Inr other"
  then show "step (MoveAssign dst dst) (w, objs) = Inr (w, objs)"
    by (rule step_MoveAssign_self)
qed

lemma allocation0_bound: "has_Allocator world0 allocation0"
  by (simp add: has_Allocator_def ReflexivePointer_bool_def allocation0_fields world0_fields)

lemma run_ops0:
  "run ops0 (world0, [Some allocation0])
   = Inr (world0\<lparr>released := [allocation0]\<rparr>, [None, None, None])"
  by (simp add: ops0_def object_def Allocation_move_assign_def Allocation_move_def
      ReflexivePointer_move_def Allocation_dtor_def AssertImplication_def Assert_def
      has_Allocator_def has_RawAllocation_def ReflexivePointer_bool_def
      ReflexivePointer_deref_def Allocator_Free_def Allocation_default_def
      allocation0_def MemoryPool_AllocateView_def Allocation_ctor_def world0_def)

theorem Allocation_released_exactly_once_witness:
  "has_Allocator world0 allocation0
   \<and> (\<exists>h. run (moves [MoveConstructor, MoveAssignment] @ destroys 2) (world0, [Some allocation0])
             = Inr (world0, replicate 2 None @ [Some h])
          \<and> claim_of h = claim_of allocation0)
   \<and> (\<exists>r. run (moves [MoveConstructor, MoveAssignment] @ destroys (Suc 2))
               (world0, [Some allocation0])
             = Inr (world0\<lparr>released := released world0 @ [r]\<rparr>, replicate (Suc 2) None)
          \<and> claim_of r = claim_of allocation0)
   \<and> run ops0 (world0, [Some allocation0])
       = Inr (world0\<lparr>released := [allocation0]\<rparr>, [None, None, None])
   \<and> all_destroyed [None, None, None]
   \<and> (\<exists>r. released (world0\<lparr>released := [allocation0]\<rparr>) = released world0 @ [r]
          \<and> claim_of r = claim_of allocation0)
   \<and> destructible world0 allocation1
   \<and> Allocation_move_assign allocation1 allocation0 world0 =
       Inr (fst (Allocation_move allocation0), snd (Allocation_move allocation0),
            world0\<lparr>released := released world0 @ [allocation1]\<rparr>)
   \<and> step (MoveAssign 1 0) (world0, [Some allocation0, Some allocation1]) =
       Inr (world0\<lparr>released := released world0 @ [allocation1]\<rparr>,
            [Some allocation0, Some allocation1]
              [1 := Some (fst (Allocation_move allocation0)),
               0 := Some (snd (Allocation_move allocation0))])
   \<and> step (MoveAssign 0 0) (world0, [Some allocation0]) = Inr (world0, [Some allocation0])"
proof -
  note T = Allocation_released_exactly_once
      [OF allocation0_bound, where kinds = "[MoveConstructor, MoveAssignment]" and ops = ops0
        and other = allocation0]
  have d: "all_destroyed [None, None, None]"
    by (simp add: all_destroyed_def)
  have l: "length [MoveConstructor, MoveAssignment] = 2" by simp
  note first = T [THEN conjunct1, unfolded l]
  note second = T [THEN conjunct2, THEN conjunct1, unfolded l]
  note third = T [THEN conjunct2, THEN conjunct2, THEN conjunct1, rule_format,
      OF conjI, OF run_ops0 d]
  have h1: "has_Allocator world0 allocation1"
    by (simp add: has_Allocator_def ReflexivePointer_bool_def allocation1_fields world0_fields)
  then have d1: "destructible world0 allocation1"
    by (simp add: destructible_def)
  from T [THEN conjunct2, THEN conjunct2, THEN conjunct2, THEN conjunct2, THEN conjunct2,
      THEN conjunct2, THEN conjunct1, rule_format, OF d1] h1
  have assign: "Allocation_move_assign allocation1 allocation0 world0 =
       Inr (fst (Allocation_move allocation0), snd (Allocation_move allocation0),
            world0\<lparr>released := released world0 @ [allocation1]\<rparr>)"
    by simp
  have o: "object [Some allocation0, Some allocation1] 1 = Inr allocation1
           \<and> object [Some allocation0, Some allocation1] 0 = Inr allocation0
           \<and> (1 :: nat) \<noteq> 0 \<and> destructible world0 allocation1"
    using d1 by (simp add: object_def)
  from T [THEN conjunct2, THEN conjunct2, THEN conjunct2, THEN conjunct2, THEN conjunct2,
      THEN conjunct2, THEN conjunct2, THEN conjunct1, rule_format, OF o] h1
  have st: "step (MoveAssign 1 0) (world0, [Some allocation0, Some allocation1]) =
       Inr (world0\<lparr>released := released world0 @ [allocation1]\<rparr>,
            [Some allocation0, Some allocation1]
              [1 := Some (fst (Allocation_move allocation0)),
               0 := Some (snd (Allocation_move allocation0))])"
    by (simp del: step.simps)
  have o0: "object [Some allocation0] 0 = Inr allocation0"
    by (simp add: object_def)
  note self = T [THEN conjunct2, THEN conjunct2, THEN conjunct2, THEN conjunct2, THEN conjunct2,
      THEN conjunct2, THEN conjunct2, THEN conjunct2, THEN conjunct1, rule_format, OF o0]
  show ?thesis
    by (intro conjI allocation0_bound first second run_ops0 d third d1 assign st self)
qed

end
